theory Spec2Isabelle
  imports Complex_Main
begin

section \<open>JavaScript numbers\<close>

text \<open>
  A JavaScript Number is modelled by \<open>jsnum\<close>: \<open>NaN\<close>, the two infinities, or a finite
  value, which is a real number. The range of binary64 is modelled: \<open>fl\<close> below takes the
  exact result of an operation to an infinity when it is too large and to zero when it
  is too small, as rounding to nearest does. Its precision is not: between these bounds a
  result keeps its exact value, and the sign of zero is not represented. The propagation
  of \<open>NaN\<close>, the comparisons that are false on \<open>NaN\<close> and the arithmetic of the infinities
  are written out.
\<close>

datatype jsnum = NaN | Num real | PInf | NInf

fun isNaN :: "jsnum \<Rightarrow> bool" where
  "isNaN NaN = True"
| "isNaN _ = False"

text \<open>The comparisons \<open>a < b\<close> and \<open>a <= b\<close>: false as soon as one side is \<open>NaN\<close>.\<close>

fun jlt :: "jsnum \<Rightarrow> jsnum \<Rightarrow> bool" where
  "jlt NaN _ = False"
| "jlt _ NaN = False"
| "jlt (Num a) (Num b) = (a < b)"
| "jlt _ NInf = False"
| "jlt NInf _ = True"
| "jlt PInf _ = False"
| "jlt _ PInf = True"

fun jle :: "jsnum \<Rightarrow> jsnum \<Rightarrow> bool" where
  "jle NaN _ = False"
| "jle _ NaN = False"
| "jle (Num a) (Num b) = (a \<le> b)"
| "jle NInf _ = True"
| "jle _ PInf = True"
| "jle _ NInf = False"
| "jle PInf _ = False"

fun jneg :: "jsnum \<Rightarrow> jsnum" where
  "jneg NaN = NaN"
| "jneg (Num a) = Num (- a)"
| "jneg PInf = NInf"
| "jneg NInf = PInf"

text \<open>An infinity by its sign.\<close>

definition signed_inf :: "bool \<Rightarrow> jsnum" where
  "signed_inf negative = (if negative then NInf else PInf)"

fun is_negative :: "jsnum \<Rightarrow> bool" where
  "is_negative (Num a) = (a < 0)"
| "is_negative NInf = True"
| "is_negative _ = False"

text \<open>
  The range of binary64 under rounding to nearest, ties to even. A magnitude of at least
  \<open>huge\<close>, which is half a unit in the last place above the largest finite number
  \<open>2^1024 - 2^971\<close>, rounds to an infinity. A magnitude of at most \<open>tiny\<close>, which is half the
  smallest positive number \<open>2^-1074\<close>, rounds to zero.
\<close>

definition huge :: real where
  "huge = 2 ^ 1024 - 2 ^ 970"

definition tiny :: real where
  "tiny = 1 / 2 ^ 1075"

definition fl :: "real \<Rightarrow> jsnum" where
  "fl x = (if huge \<le> \<bar>x\<bar> then signed_inf (x < 0) else if \<bar>x\<bar> \<le> tiny then Num 0 else Num x)"

fun jadd :: "jsnum \<Rightarrow> jsnum \<Rightarrow> jsnum" where
  "jadd NaN _ = NaN"
| "jadd _ NaN = NaN"
| "jadd (Num a) (Num b) = fl (a + b)"
| "jadd PInf NInf = NaN"
| "jadd NInf PInf = NaN"
| "jadd PInf _ = PInf"
| "jadd _ PInf = PInf"
| "jadd NInf _ = NInf"
| "jadd _ NInf = NInf"

definition jsub :: "jsnum \<Rightarrow> jsnum \<Rightarrow> jsnum" where
  "jsub a b = jadd a (jneg b)"

fun jmul :: "jsnum \<Rightarrow> jsnum \<Rightarrow> jsnum" where
  "jmul NaN _ = NaN"
| "jmul _ NaN = NaN"
| "jmul (Num a) (Num b) = fl (a * b)"
| "jmul (Num a) b = (if a = 0 then NaN else signed_inf (is_negative (Num a) \<noteq> is_negative b))"
| "jmul a (Num b) = (if b = 0 then NaN else signed_inf (is_negative a \<noteq> is_negative (Num b)))"
| "jmul a b = signed_inf (is_negative a \<noteq> is_negative b)"

text \<open>
  Division. A finite non-zero value over zero is an infinity whose sign is that of the
  dividend: the divisor is taken to be \<open>+0\<close>, which is the only zero a square root returns.
\<close>

fun jdiv :: "jsnum \<Rightarrow> jsnum \<Rightarrow> jsnum" where
  "jdiv NaN _ = NaN"
| "jdiv _ NaN = NaN"
| "jdiv (Num a) (Num b) =
     (if b = 0 then (if a = 0 then NaN else signed_inf (a < 0)) else fl (a / b))"
| "jdiv (Num a) _ = Num 0"
| "jdiv a (Num b) = signed_inf (is_negative a \<noteq> (b < 0))"
| "jdiv _ _ = NaN"

text \<open>The square root of a number in range is in range.\<close>

fun jsqrt :: "jsnum \<Rightarrow> jsnum" where
  "jsqrt NaN = NaN"
| "jsqrt (Num a) = (if a < 0 then NaN else Num (sqrt a))"
| "jsqrt PInf = PInf"
| "jsqrt NInf = NaN"

section \<open>Numbers as text\<close>

definition digit_char :: "nat \<Rightarrow> char" where
  "digit_char d = ''0123456789'' ! d"

fun nat_str :: "nat \<Rightarrow> string" where
  "nat_str n = (if n < 10 then [digit_char n] else nat_str (n div 10) @ [digit_char (n mod 10)])"

declare nat_str.simps [simp del]

definition int_str :: "int \<Rightarrow> string" where
  "int_str k = (if k < 0 then ''-'' @ nat_str (nat (- k)) else nat_str (nat k))"

text \<open>
  \<open>Number::toString\<close>. An integer below \<open>2^53\<close> in magnitude is a binary64 value and prints
  as its decimal digits. The text of any other finite number is the shortest decimal that
  reads back as the same binary64 value, which depends on the precision that is not
  modelled: it is the parameter \<open>ns\<close>.
\<close>

definition toString :: "(real \<Rightarrow> string) \<Rightarrow> jsnum \<Rightarrow> string" where
  "toString ns x =
     (case x of
        NaN \<Rightarrow> ''NaN''
      | PInf \<Rightarrow> ''Infinity''
      | NInf \<Rightarrow> ''-Infinity''
      | Num a \<Rightarrow>
          (if a = of_int \<lfloor>a\<rfloor> \<and> \<bar>a\<bar> < 2 ^ 53 then int_str \<lfloor>a\<rfloor> else ns a))"

text \<open>
  \<open>Number.prototype.toFixed(4)\<close> on a value \<open>0 \<le> a < 10^21\<close>: the integer \<open>n\<close> for which
  \<open>n / 10^4 - a\<close> is closest to zero (the larger one of two), printed with a decimal point
  before its last four digits, padded with zeros on the left to five digits.
\<close>

definition pad4 :: "string \<Rightarrow> string" where
  "pad4 ds = replicate (4 - length ds) CHR ''0'' @ ds"

definition fixed4 :: "real \<Rightarrow> string" where
  "fixed4 a =
     (let n = nat \<lfloor>a * 10000 + 1 / 2\<rfloor>
      in nat_str (n div 10000) @ ''.'' @ pad4 (nat_str (n mod 10000)))"

definition toFixed4 :: "(real \<Rightarrow> string) \<Rightarrow> jsnum \<Rightarrow> string" where
  "toFixed4 ns x =
     (case x of
        Num a \<Rightarrow>
          (if a < 0
           then (if - a \<ge> 10 ^ 21 then ''-'' @ toString ns (Num (- a)) else ''-'' @ fixed4 (- a))
           else (if a \<ge> 10 ^ 21 then toString ns (Num a) else fixed4 a))
      | _ \<Rightarrow> toString ns x)"

text \<open>\<open>function fmt(n) { return n.toFixed(4); }\<close>\<close>

definition fmt :: "(real \<Rightarrow> string) \<Rightarrow> jsnum \<Rightarrow> string" where
  "fmt ns n = toFixed4 ns n"


section \<open>Reading the command line\<close>

text \<open>
  A JavaScript string is a list of UTF-16 code units. \<open>ascii\<close> gives the string of an
  ASCII text.
\<close>

type_synonym jsstring = "nat list"

definition ascii :: "string \<Rightarrow> jsstring" where
  "ascii cs = map of_char cs"

text \<open>
  The white space that \<open>parseInt\<close> and \<open>parseFloat\<close> drop: TAB, LF, VT, FF, CR, the space,
  U+00A0, U+1680, U+2000 to U+200A, the line and paragraph separators U+2028 and U+2029,
  U+202F, U+205F, U+3000 and the byte order mark U+FEFF.
\<close>

definition is_ws :: "nat \<Rightarrow> bool" where
  "is_ws c =
     (c \<in> set [9, 10, 11, 12, 13, 32, 160, 5760, 8192, 8193, 8194, 8195, 8196, 8197, 8198,
               8199, 8200, 8201, 8202, 8232, 8233, 8239, 8287, 12288, 65279])"

text \<open>
  \<open>parseInt(string)\<close> with no radix, after ECMAScript: leading white space is dropped, then
  a sign, then a \<open>0x\<close> or \<open>0X\<close> prefix (which selects radix 16); the digits that follow, up
  to the first character that is not a digit of the radix, are the value, and \<open>NaN\<close> (here
  \<open>None\<close>) is returned when there is none. The result is an integer or \<open>NaN\<close>, hence the
  type; \<open>num_of\<close> below is the Number it stands for.
\<close>

definition digit_val :: "nat \<Rightarrow> nat option" where
  "digit_val c =
     (if 48 \<le> c \<and> c \<le> 57 then Some (c - 48)
      else if 97 \<le> c \<and> c \<le> 122 then Some (c - 87)
      else if 65 \<le> c \<and> c \<le> 90 then Some (c - 55)
      else None)"

definition radix_digit :: "nat \<Rightarrow> nat \<Rightarrow> bool" where
  "radix_digit R c = (case digit_val c of None \<Rightarrow> False | Some d \<Rightarrow> d < R)"

definition digits_val :: "nat \<Rightarrow> jsstring \<Rightarrow> nat" where
  "digits_val R Z = foldl (\<lambda>a c. a * R + (case digit_val c of None \<Rightarrow> 0 | Some d \<Rightarrow> d)) 0 Z"

definition strip_sign :: "jsstring \<Rightarrow> bool \<times> jsstring" where
  "strip_sign S =
     (case S of
        [] \<Rightarrow> (False, S)
      | c # rest \<Rightarrow>
          if c = of_char CHR ''-'' then (True, rest)
          else if c = of_char CHR ''+'' then (False, rest)
          else (False, S))"

definition strip_hex_prefix :: "jsstring \<Rightarrow> nat \<times> jsstring" where
  "strip_hex_prefix S =
     (case S of
        c # x # rest \<Rightarrow>
          if c = of_char CHR ''0'' \<and> (x = of_char CHR ''x'' \<or> x = of_char CHR ''X'')
          then (16, rest) else (10, S)
      | _ \<Rightarrow> (10, S))"

definition parseInt :: "jsstring \<Rightarrow> int option" where
  "parseInt string =
     (let (negative, S) = strip_sign (dropWhile is_ws string);
          (R, S') = strip_hex_prefix S;
          Z = takeWhile (radix_digit R) S'
      in if Z = [] then None
         else Some ((if negative then - 1 else 1) * int (digits_val R Z)))"

text \<open>
  \<open>parseFloat(string)\<close>, after ECMAScript: leading white space is dropped and the longest
  prefix that is a decimal literal is read: a sign, then \<open>Infinity\<close> or digits with an
  optional fraction and an optional exponent (an exponent marker with no digit after it
  is not part of the literal). \<open>NaN\<close> when there is neither an integer nor a fraction
  digit. The result is the decimal value of the literal, taken into the range of binary64
  by \<open>fl\<close>.
\<close>

definition dec_digit :: "nat \<Rightarrow> bool" where
  "dec_digit c = (48 \<le> c \<and> c \<le> 57)"

definition exponent_part :: "jsstring \<Rightarrow> int" where
  "exponent_part S =
     (case S of
        [] \<Rightarrow> 0
      | c # rest \<Rightarrow>
          if c = of_char CHR ''e'' \<or> c = of_char CHR ''E''
          then (let (negative, S') = strip_sign rest;
                    ds = takeWhile dec_digit S'
                in if ds = [] then 0
                   else (if negative then - 1 else 1) * int (digits_val 10 ds))
          else 0)"

definition scale10 :: "real \<Rightarrow> int \<Rightarrow> real" where
  "scale10 a e = (if e < 0 then a / 10 ^ nat (- e) else a * 10 ^ nat e)"

definition parseFloat :: "jsstring \<Rightarrow> jsnum" where
  "parseFloat string =
     (let (negative, S) = strip_sign (dropWhile is_ws string)
      in if take 8 S = ascii ''Infinity'' then signed_inf negative
         else
           (let ip = takeWhile dec_digit S;
                S' = dropWhile dec_digit S;
                fp = (case S' of [] \<Rightarrow> [] | c # rest \<Rightarrow>
                        if c = of_char CHR ''.'' then takeWhile dec_digit rest else []);
                S'' = (case S' of [] \<Rightarrow> [] | c # rest \<Rightarrow>
                        if c = of_char CHR ''.'' then dropWhile dec_digit rest else S')
            in if ip = [] \<and> fp = [] then NaN
               else
                 (let m = real (digits_val 10 ip) + real (digits_val 10 fp) / 10 ^ length fp;
                      a = scale10 m (exponent_part S'')
                  in fl (if negative then - a else a))))"

text \<open>
  \<open>args[k] ? parse(args[k]) : dflt\<close>: an argument that is missing (\<open>undefined\<close>) or the
  empty string is falsy and gives the default value.
\<close>

definition arg_or :: "jsstring list \<Rightarrow> nat \<Rightarrow> (jsstring \<Rightarrow> 'a) \<Rightarrow> 'a \<Rightarrow> 'a" where
  "arg_or args k parse dflt =
     (if k < length args \<and> args ! k \<noteq> [] then parse (args ! k) else dflt)"

text \<open>
  The Number that \<open>parseInt\<close> returned: the integer taken into the range of binary64, so
  an infinity when the digits are too many.
\<close>

definition num_of :: "int option \<Rightarrow> jsnum" where
  "num_of k = (case k of None \<Rightarrow> NaN | Some i \<Rightarrow> fl (of_int i))"

text \<open>
  The number of rounds of a loop \<open>for (let i = 0; i < sides; i++)\<close>: none when \<open>sides\<close> is
  \<open>NaN\<close> or not positive.
\<close>

definition rounds :: "int option \<Rightarrow> nat" where
  "rounds k = (case k of None \<Rightarrow> 0 | Some i \<Rightarrow> nat i)"

section \<open>The vector utility\<close>

text \<open>
  Modelled from the spec: \<open>V3.js\<close>, which \<open>obj_generator.js\<close> requires, is not among the
  sources. A Vector3 is an ordered triple of components; the generator reads them as
  \<open>n[0]\<close>, \<open>n[1]\<close> and \<open>n[2]\<close>.
\<close>

datatype vector3 = Vector3 (vx: jsnum) (vy: jsnum) (vz: jsnum)

text \<open>Modelled from the spec: \<open>create(x, y, z)\<close> constructs a vector from three scalars.\<close>

definition V3_create :: "jsnum \<Rightarrow> jsnum \<Rightarrow> jsnum \<Rightarrow> vector3" where
  "V3_create x y z = Vector3 x y z"

text \<open>Modelled from the spec: \<open>subtract(a, b)\<close> is component-wise \<open>a - b\<close>.\<close>

definition V3_subtract :: "vector3 \<Rightarrow> vector3 \<Rightarrow> vector3" where
  "V3_subtract a b = Vector3 (jsub (vx a) (vx b)) (jsub (vy a) (vy b)) (jsub (vz a) (vz b))"

text \<open>
  Modelled from the spec: \<open>cross(a, b)\<close> is the right-handed cross product
  \<open>(a.y b.z - a.z b.y, a.z b.x - a.x b.z, a.x b.y - a.y b.x)\<close>.
\<close>

definition V3_cross :: "vector3 \<Rightarrow> vector3 \<Rightarrow> vector3" where
  "V3_cross a b =
     Vector3 (jsub (jmul (vy a) (vz b)) (jmul (vz a) (vy b)))
             (jsub (jmul (vz a) (vx b)) (jmul (vx a) (vz b)))
             (jsub (jmul (vx a) (vy b)) (jmul (vy a) (vx b)))"

text \<open>Modelled from the spec: the Euclidean magnitude that \<open>normalize\<close> divides by.\<close>

definition magnitude :: "vector3 \<Rightarrow> jsnum" where
  "magnitude u =
     jsqrt (jadd (jadd (jmul (vx u) (vx u)) (jmul (vy u) (vy u))) (jmul (vz u) (vz u)))"

text \<open>
  Modelled from the spec: \<open>normalize(v)\<close> divides each component by the Euclidean
  magnitude of \<open>v\<close>, with no guard for a zero magnitude.
\<close>

definition V3_normalize :: "vector3 \<Rightarrow> vector3" where
  "V3_normalize u =
     Vector3 (jdiv (vx u) (magnitude u)) (jdiv (vy u) (magnitude u)) (jdiv (vz u) (magnitude u))"

section \<open>The generator\<close>

text \<open>
  The arrays \<open>v\<close>, \<open>vn\<close>, \<open>f\<close> and \<open>vReorganized\<close> hold lines of text built by template
  literals. A line is represented by the values its template interpolates:
  \<open>VLine x y z\<close> is \<open>v ${fmt(x)} ${fmt(y)} ${fmt(z)}\<close>, \<open>VNLine\<close> the same with \<open>vn\<close>, and
  \<open>FLine a na b nb c nc\<close> is \<open>f ${a}//${na} ${b}//${nb} ${c}//${nc}\<close>; \<open>render\<close> below gives
  the text. \<open>Undefined\<close> is what reading an array beyond its length returns.
\<close>

datatype line =
  VLine jsnum jsnum jsnum
| VNLine jsnum jsnum jsnum
| FLine nat nat nat nat nat nat
| Undefined

record state =
  v_arr :: "line list"
  vn_arr :: "line list"
  f_arr :: "line list"
  bottomVertices :: "vector3 list"
  topVertices :: "vector3 list"
  vReorganized :: "line list"

text \<open>\<open>xs[i]\<close> on an array of lines: \<open>undefined\<close> out of range.\<close>

definition line_at :: "line list \<Rightarrow> nat \<Rightarrow> line" where
  "line_at xs i = (if i < length xs then xs ! i else Undefined)"

text \<open>
  \<open>xs[i]\<close> on an array of vectors. Out of range it is \<open>undefined\<close>, on which the vector
  operations throw a TypeError: \<open>None\<close>.
\<close>

definition vector_at :: "vector3 list \<Rightarrow> nat \<Rightarrow> vector3 option" where
  "vector_at xs i = (if i < length xs then Some (xs ! i) else None)"

text \<open>
  \<open>for (let i = i0; i < n; i++) body\<close>, where the body returns the new state, or \<open>None\<close>
  when it throws.
\<close>

function for_loop :: "nat \<Rightarrow> nat \<Rightarrow> (nat \<Rightarrow> 's \<Rightarrow> 's option) \<Rightarrow> 's \<Rightarrow> 's option" where
  "for_loop i n body s =
     (if i < n
      then (case body i s of None \<Rightarrow> None | Some s' \<Rightarrow> for_loop (Suc i) n body s')
      else Some s)"
  by pat_completeness auto
termination
  by (relation "measure (\<lambda>(i, n, body, s). n - i)") auto

declare for_loop.simps [simp del]

text \<open>Lines 39 to 55: the vertices of the floor and of the roof.\<close>

definition ring_body :: "nat \<Rightarrow> jsnum \<Rightarrow> jsnum \<Rightarrow> jsnum \<Rightarrow> nat \<Rightarrow> state \<Rightarrow> state option" where
  "ring_body sides h r1 r2 i s =
     (let angulo = (real i / real sides) * 2 * pi;
          cos = cos angulo;
          sin = sin angulo;
          x_bot = jmul r1 (Num cos);
          z_bot = jmul r1 (Num sin);
          s = s\<lparr>bottomVertices := bottomVertices s @ [V3_create x_bot (Num 0) z_bot]\<rparr>;
          s = s\<lparr>v_arr := v_arr s @ [VLine x_bot (Num 0) z_bot]\<rparr>;
          x_top = jmul r2 (Num cos);
          z_top = jmul r2 (Num sin);
          s = s\<lparr>topVertices := topVertices s @ [V3_create x_top h z_top]\<rparr>;
          s = s\<lparr>v_arr := v_arr s @ [VLine x_top h z_top]\<rparr>
      in Some s)"

text \<open>Lines 59 to 64: the bottom vertices, then the top vertices.\<close>

definition bottom_body :: "nat \<Rightarrow> state \<Rightarrow> state option" where
  "bottom_body i s = Some (s\<lparr>vReorganized := vReorganized s @ [line_at (v_arr s) (i * 2)]\<rparr>)"

definition top_body :: "nat \<Rightarrow> state \<Rightarrow> state option" where
  "top_body i s = Some (s\<lparr>vReorganized := vReorganized s @ [line_at (v_arr s) (i * 2 + 1)]\<rparr>)"

text \<open>Lines 74 to 88: one normal for each side wall.\<close>

definition normal_body :: "nat \<Rightarrow> nat \<Rightarrow> state \<Rightarrow> state option" where
  "normal_body sides i s =
     (let j = (i + 1) mod sides
      in case (vector_at (bottomVertices s) i, vector_at (topVertices s) i,
               vector_at (bottomVertices s) j) of
           (Some Bi, Some Ti, Some Bj) \<Rightarrow>
             (let A = V3_subtract Ti Bi;
                  B = V3_subtract Bj Bi;
                  n = V3_normalize (V3_cross A B)
              in Some (s\<lparr>vn_arr := vn_arr s @ [VNLine (vx n) (vy n) (vz n)]\<rparr>))
         | _ \<Rightarrow> None)"

text \<open>Lines 91 to 107: two triangles for each side wall, with the same normal.\<close>

definition side_body :: "nat \<Rightarrow> nat \<Rightarrow> state \<Rightarrow> state option" where
  "side_body sides i s =
     (let j = (i + 1) mod sides;
          viB = 1 + i;
          vjB = 1 + j;
          viT = sides + 1 + i;
          vjT = sides + 1 + j;
          vn_idx = 1 + i;
          s = s\<lparr>f_arr := f_arr s @ [FLine viB vn_idx viT vn_idx vjB vn_idx]\<rparr>;
          s = s\<lparr>f_arr := f_arr s @ [FLine vjB vn_idx viT vn_idx vjT vn_idx]\<rparr>
      in Some s)"

text \<open>Lines 110 to 120: the roof, each triangle with a normal \<open>(0, 1, 0)\<close> of its own.\<close>

definition roof_body :: "nat \<Rightarrow> nat \<Rightarrow> nat \<Rightarrow> state \<Rightarrow> state option" where
  "roof_body sides centerTopIndex i s =
     (let current = sides + 1 + i;
          next = sides + 1 + ((i + 1) mod sides);
          s = s\<lparr>vn_arr := vn_arr s @ [VNLine (Num 0) (Num 1) (Num 0)]\<rparr>;
          vn_idx = length (vn_arr s);
          s = s\<lparr>f_arr := f_arr s @ [FLine centerTopIndex vn_idx next vn_idx current vn_idx]\<rparr>
      in Some s)"

text \<open>Lines 123 to 133: the floor, each triangle with a normal \<open>(0, -1, 0)\<close> of its own.\<close>

definition floor_body :: "nat \<Rightarrow> nat \<Rightarrow> nat \<Rightarrow> state \<Rightarrow> state option" where
  "floor_body sides centerBotIndex i s =
     (let current = 1 + i;
          next = 1 + ((i + 1) mod sides);
          s = s\<lparr>vn_arr := vn_arr s @ [VNLine (Num 0) (Num (- 1)) (Num 0)]\<rparr>;
          vn_idx = length (vn_arr s);
          s = s\<lparr>f_arr := f_arr s @ [FLine centerBotIndex vn_idx current vn_idx next vn_idx]\<rparr>
      in Some s)"

definition empty_state :: state where
  "empty_state =
     \<lparr>v_arr = [], vn_arr = [], f_arr = [], bottomVertices = [], topVertices = [],
      vReorganized = []\<rparr>"

text \<open>
  Lines 31 to 133 of \<open>main\<close>: everything between the validation and the writing of the
  file, as a function of the validated parameters.
\<close>

definition generate :: "nat \<Rightarrow> jsnum \<Rightarrow> jsnum \<Rightarrow> jsnum \<Rightarrow> state option" where
  "generate sides h r1 r2 =
     Option.bind (for_loop 0 sides (ring_body sides h r1 r2) empty_state) (\<lambda>s.
     Option.bind (for_loop 0 sides bottom_body s) (\<lambda>s.
     Option.bind (for_loop 0 sides top_body s) (\<lambda>s.
       let centerBotIndex = 2 * sides + 1;
           s = s\<lparr>vReorganized := vReorganized s @ [VLine (Num 0) (Num 0) (Num 0)]\<rparr>;
           centerTopIndex = 2 * sides + 2;
           s = s\<lparr>vReorganized := vReorganized s @ [VLine (Num 0) h (Num 0)]\<rparr>
       in
     Option.bind (for_loop 0 sides (normal_body sides) s) (\<lambda>s.
     Option.bind (for_loop 0 sides (side_body sides) s) (\<lambda>s.
     Option.bind (for_loop 0 sides (roof_body sides centerTopIndex) s) (\<lambda>s.
     for_loop 0 sides (floor_body sides centerBotIndex) s))))))"

section \<open>The file\<close>

definition render :: "(real \<Rightarrow> string) \<Rightarrow> line \<Rightarrow> string" where
  "render ns l =
     (case l of
        VLine x y z \<Rightarrow> ''v '' @ fmt ns x @ '' '' @ fmt ns y @ '' '' @ fmt ns z
      | VNLine x y z \<Rightarrow> ''vn '' @ fmt ns x @ '' '' @ fmt ns y @ '' '' @ fmt ns z
      | FLine a na b nb c nc \<Rightarrow>
          ''f '' @ nat_str a @ ''//'' @ nat_str na @ '' '' @ nat_str b @ ''//'' @ nat_str nb
            @ '' '' @ nat_str c @ ''//'' @ nat_str nc
      | Undefined \<Rightarrow> [])"

text \<open>\<open>xs.join(sep)\<close>\<close>

fun join :: "string \<Rightarrow> string list \<Rightarrow> string" where
  "join sep [] = []"
| "join sep [x] = x"
| "join sep (x # y # ys) = x @ sep @ join sep (y # ys)"

definition newline :: string where
  "newline = [CHR 0x0A]"

text \<open>The name \<open>building_${sides}_${h}_${r1}_${r2}.obj\<close>.\<close>

definition nombre :: "(real \<Rightarrow> string) \<Rightarrow> jsnum \<Rightarrow> jsnum \<Rightarrow> jsnum \<Rightarrow> jsnum \<Rightarrow> string" where
  "nombre ns sides h r1 r2 =
     ''building_'' @ toString ns sides @ ''_'' @ toString ns h @ ''_'' @ toString ns r1
       @ ''_'' @ toString ns r2 @ ''.obj''"

text \<open>
  The header (lines 136 to 141), as a function of the three numbers it declares, which
  \<open>main\<close> takes from the lengths of \<open>vReorganized\<close>, \<open>vn\<close> and \<open>f\<close>.
\<close>

definition header :: "(real \<Rightarrow> string) \<Rightarrow> jsnum \<Rightarrow> jsnum \<Rightarrow> jsnum \<Rightarrow> jsnum \<Rightarrow> nat \<Rightarrow> nat \<Rightarrow> nat \<Rightarrow> string" where
  "header ns sides h r1 r2 vertices normals faces =
     ''# OBJ file '' @ nombre ns sides h r1 r2 @ newline
       @ ''# sides: '' @ toString ns sides @ '', h: '' @ toString ns h
       @ '', R_Base: '' @ toString ns r1 @ '', R_Cima: '' @ toString ns r2 @ newline
       @ ''# Vertices totales: '' @ nat_str vertices @ newline
       @ ''# Normales totales: '' @ nat_str normals @ newline
       @ ''# Caras totales: '' @ nat_str faces @ newline"

text \<open>
  What a run of the program does: it prints the error message and returns, or it throws,
  or it calls \<open>fs.writeFile\<close> with a name and a content.
\<close>

datatype outcome = ConsoleError string | TypeError | WriteFile string string

definition error_message :: string where
  "error_message = ''Error: sides debe estar entre 3-36 y h, r1, r2 deben ser > 0''"

text \<open>The test of line 23.\<close>

definition invalid :: "int option \<Rightarrow> jsnum \<Rightarrow> jsnum \<Rightarrow> jsnum \<Rightarrow> bool" where
  "invalid sides h r1 r2 =
     (jlt (num_of sides) (Num 3) \<or> jlt (Num 36) (num_of sides) \<or> isNaN (num_of sides)
      \<or> jle h (Num 0) \<or> jle r1 (Num 0) \<or> jle r2 (Num 0))"

text \<open>Lines 136 to 146, on the arrays that the generation left.\<close>

definition write_obj :: "(real \<Rightarrow> string) \<Rightarrow> jsnum \<Rightarrow> jsnum \<Rightarrow> jsnum \<Rightarrow> jsnum \<Rightarrow> state \<Rightarrow> outcome" where
  "write_obj ns sides h r1 r2 s =
     (let contenido =
            join newline
              ([header ns sides h r1 r2 (length (vReorganized s)) (length (vn_arr s))
                  (length (f_arr s))]
               @ map (render ns) (vReorganized s) @ map (render ns) (vn_arr s)
               @ map (render ns) (f_arr s));
          nombre_archivo = nombre ns sides h r1 r2
      in WriteFile nombre_archivo contenido)"

text \<open>
  \<open>main\<close>, lines 13 to 153. \<open>args\<close> is \<open>process.argv.slice(2)\<close> of line 14, the arguments of
  the command line; the program reads nothing else.
\<close>

definition main :: "(real \<Rightarrow> string) \<Rightarrow> jsstring list \<Rightarrow> outcome" where
  "main ns args =
     (let sides = arg_or args 0 parseInt (Some 8);
          h = arg_or args 1 parseFloat (Num 6);
          r1 = arg_or args 2 parseFloat (Num 1);
          r2 = arg_or args 3 parseFloat (Num (8 / 10))
      in if invalid sides h r1 r2 then ConsoleError error_message
         else (case generate (rounds sides) h r1 r2 of
                 None \<Rightarrow> TypeError
               | Some s \<Rightarrow> write_obj ns (num_of sides) h r1 r2 s))"

section \<open>What the specification says is generated\<close>

text \<open>
  The definitions of this section follow the words of the specification, not the code:
  the theorems below compare them with what \<open>generate\<close> computes.
\<close>

text \<open>Ring sampling: \<open>angle = (i / sides) 2 pi\<close>.\<close>

definition angle :: "nat \<Rightarrow> nat \<Rightarrow> real" where
  "angle sides i = real i / real sides * 2 * pi"

text \<open>
  Bottom ring vertex \<open>i\<close> is \<open>(baseRadius cos(angle), 0, baseRadius sin(angle))\<close>, top ring
  vertex \<open>i\<close> is \<open>(topRadius cos(angle), height, topRadius sin(angle))\<close>.
\<close>

definition ring_bottom :: "nat \<Rightarrow> jsnum \<Rightarrow> nat \<Rightarrow> vector3" where
  "ring_bottom sides baseRadius i =
     Vector3 (jmul baseRadius (Num (cos (angle sides i)))) (Num 0)
             (jmul baseRadius (Num (sin (angle sides i))))"

definition ring_top :: "nat \<Rightarrow> jsnum \<Rightarrow> jsnum \<Rightarrow> nat \<Rightarrow> vector3" where
  "ring_top sides height topRadius i =
     Vector3 (jmul topRadius (Num (cos (angle sides i)))) height
             (jmul topRadius (Num (sin (angle sides i))))"

text \<open>
  Side-face normal \<open>i\<close>: with \<open>j = (i + 1) mod sides\<close>, \<open>A = top[i] - bottom[i]\<close> and
  \<open>B = bottom[j] - bottom[i]\<close>, it is \<open>normalize(cross(A, B))\<close>.
\<close>

definition side_normal :: "nat \<Rightarrow> jsnum \<Rightarrow> jsnum \<Rightarrow> jsnum \<Rightarrow> nat \<Rightarrow> vector3" where
  "side_normal sides height baseRadius topRadius i =
     (let j = (i + 1) mod sides;
          A = V3_subtract (ring_top sides height topRadius i) (ring_bottom sides baseRadius i);
          B = V3_subtract (ring_bottom sides baseRadius j) (ring_bottom sides baseRadius i)
      in V3_normalize (V3_cross A B))"

text \<open>The lines of a vertex and of a normal.\<close>

definition vertex_line :: "vector3 \<Rightarrow> line" where
  "vertex_line u = VLine (vx u) (vy u) (vz u)"

definition normal_line :: "vector3 \<Rightarrow> line" where
  "normal_line u = VNLine (vx u) (vy u) (vz u)"

text \<open>
  The 1-based positions, in the vertex list, of bottom ring vertex \<open>i\<close>, of top ring
  vertex \<open>i\<close> and of the two centres.
\<close>

definition bottom_index :: "nat \<Rightarrow> nat" where
  "bottom_index i = i + 1"

definition top_index :: "nat \<Rightarrow> nat \<Rightarrow> nat" where
  "top_index sides i = sides + i + 1"

definition bottom_center_index :: "nat \<Rightarrow> nat" where
  "bottom_center_index sides = 2 * sides + 1"

definition top_center_index :: "nat \<Rightarrow> nat" where
  "top_center_index sides = 2 * sides + 2"

text \<open>A triangle whose three corners refer to one normal.\<close>

definition triangle :: "nat \<Rightarrow> nat \<Rightarrow> nat \<Rightarrow> nat \<Rightarrow> line" where
  "triangle a b c n = FLine a n b n c n"

text \<open>
  Side faces of position \<open>i\<close>: \<open>(bottom[i], top[i], bottom[j])\<close> and
  \<open>(bottom[j], top[i], top[j])\<close>, both with side normal \<open>i + 1\<close>.
\<close>

definition side_faces :: "nat \<Rightarrow> nat \<Rightarrow> line list" where
  "side_faces sides i =
     (let j = (i + 1) mod sides
      in [triangle (bottom_index i) (top_index sides i) (bottom_index j) (i + 1),
          triangle (bottom_index j) (top_index sides i) (top_index sides j) (i + 1)])"

text \<open>
  Roof face \<open>i\<close>: \<open>(top-center, top[next], top[i])\<close>; floor face \<open>i\<close>:
  \<open>(bottom-center, bottom[i], bottom[next])\<close>; each with the normal of the given index.
\<close>

definition roof_face :: "nat \<Rightarrow> nat \<Rightarrow> nat \<Rightarrow> line" where
  "roof_face sides i n =
     triangle (top_center_index sides) (top_index sides ((i + 1) mod sides)) (top_index sides i) n"

definition floor_face :: "nat \<Rightarrow> nat \<Rightarrow> nat \<Rightarrow> line" where
  "floor_face sides i n =
     triangle (bottom_center_index sides) (bottom_index i) (bottom_index ((i + 1) mod sides)) n"

definition roof_normal :: line where
  "roof_normal = VNLine (Num 0) (Num 1) (Num 0)"

definition floor_normal :: line where
  "floor_normal = VNLine (Num 0) (Num (- 1)) (Num 0)"




text \<open>The vertex indices and the normal indices of a face record.\<close>

fun vertex_indices :: "line \<Rightarrow> nat list" where
  "vertex_indices (FLine a na b nb c nc) = [a, b, c]"
| "vertex_indices _ = []"

fun normal_indices :: "line \<Rightarrow> nat list" where
  "normal_indices (FLine a na b nb c nc) = [na, nb, nc]"
| "normal_indices _ = []"

text \<open>Which kind of line a line of the file is.\<close>

fun is_vertex_line :: "line \<Rightarrow> bool" where
  "is_vertex_line (VLine x y z) = True"
| "is_vertex_line _ = False"

fun is_normal_line :: "line \<Rightarrow> bool" where
  "is_normal_line (VNLine x y z) = True"
| "is_normal_line _ = False"

fun is_face_line :: "line \<Rightarrow> bool" where
  "is_face_line (FLine a na b nb c nc) = True"
| "is_face_line _ = False"

text \<open>
  A valid parameter set: \<open>sides\<close> an integer in \<open>[3, 36]\<close>, and \<open>height\<close>, \<open>baseRadius\<close>,
  \<open>topRadius\<close> positive (finite) scalars.
\<close>

definition positive :: "jsnum \<Rightarrow> bool" where
  "positive x = (case x of Num a \<Rightarrow> 0 < a | _ \<Rightarrow> False)"

definition valid_parameters :: "nat \<Rightarrow> jsnum \<Rightarrow> jsnum \<Rightarrow> jsnum \<Rightarrow> bool" where
  "valid_parameters sides height baseRadius topRadius =
     (3 \<le> sides \<and> sides \<le> 36 \<and> positive height \<and> positive baseRadius \<and> positive topRadius)"

text \<open>Whether a run wrote the file.\<close>

fun writes_file :: "outcome \<Rightarrow> bool" where
  "writes_file (WriteFile name content) = True"
| "writes_file _ = False"

text \<open>
  An instance of the parameter \<open>ns\<close>, for statements about one concrete run in which the
  text of the numbers that are not integers plays no part.
\<close>

definition no_digits :: "real \<Rightarrow> string" where
  "no_digits a = []"

section \<open>The loops in closed form\<close>

lemma for_loop_done: "n \<le> i \<Longrightarrow> for_loop i n body s = Some s"
  by (simp add: for_loop.simps)

lemma for_loop_step:
  "i < n \<Longrightarrow> body i s = Some s' \<Longrightarrow> for_loop i n body s = for_loop (Suc i) n body s'"
  by (simp add: for_loop.simps)

lemma ring_body_eq:
  "ring_body sides h r1 r2 i s =
     Some (s\<lparr>bottomVertices := bottomVertices s @ [ring_bottom sides r1 i],
             topVertices := topVertices s @ [ring_top sides h r2 i],
             v_arr := v_arr s @ [vertex_line (ring_bottom sides r1 i),
                                 vertex_line (ring_top sides h r2 i)]\<rparr>)"
  by (simp add: ring_body_def Let_def ring_bottom_def ring_top_def angle_def vertex_line_def
      V3_create_def)

lemma ring_loop:
  "for_loop i n (ring_body sides h r1 r2) s =
     Some (s\<lparr>bottomVertices := bottomVertices s @ map (ring_bottom sides r1) [i..<n],
             topVertices := topVertices s @ map (ring_top sides h r2) [i..<n],
             v_arr := v_arr s @ concat (map (\<lambda>k. [vertex_line (ring_bottom sides r1 k),
                                 vertex_line (ring_top sides h r2 k)]) [i..<n])\<rparr>)"
proof (induction "n - i" arbitrary: i s)
  case 0
  then show ?case by (simp add: for_loop_done)
next
  case (Suc d)
  then have lt: "i < n" and d: "d = n - Suc i" by simp_all
  show ?case
    by (simp add: for_loop_step [where body = "ring_body sides h r1 r2", OF lt ring_body_eq] Suc.hyps(1) [OF d] upt_conv_Cons [OF lt])
qed

lemma bottom_loop:
  "for_loop i n bottom_body s =
     Some (s\<lparr>vReorganized := vReorganized s @ map (\<lambda>k. line_at (v_arr s) (k * 2)) [i..<n]\<rparr>)"
proof (induction "n - i" arbitrary: i s)
  case 0
  then show ?case by (simp add: for_loop_done)
next
  case (Suc d)
  then have lt: "i < n" and d: "d = n - Suc i" by simp_all
  have b: "bottom_body i s = Some (s\<lparr>vReorganized := vReorganized s @ [line_at (v_arr s) (i * 2)]\<rparr>)"
    by (simp add: bottom_body_def)
  show ?case
    by (simp add: for_loop_step [where body = bottom_body, OF lt b] Suc.hyps(1) [OF d] upt_conv_Cons [OF lt])
qed

lemma top_loop:
  "for_loop i n top_body s =
     Some (s\<lparr>vReorganized := vReorganized s @ map (\<lambda>k. line_at (v_arr s) (k * 2 + 1)) [i..<n]\<rparr>)"
proof (induction "n - i" arbitrary: i s)
  case 0
  then show ?case by (simp add: for_loop_done)
next
  case (Suc d)
  then have lt: "i < n" and d: "d = n - Suc i" by simp_all
  have b: "top_body i s = Some (s\<lparr>vReorganized := vReorganized s @ [line_at (v_arr s) (i * 2 + 1)]\<rparr>)"
    by (simp add: top_body_def)
  show ?case
    by (simp add: for_loop_step [where body = top_body, OF lt b] Suc.hyps(1) [OF d] upt_conv_Cons [OF lt])
qed

lemma normal_body_eq:
  assumes "i < sides"
    and "bottomVertices s = map (ring_bottom sides r1) [0..<sides]"
    and "topVertices s = map (ring_top sides h r2) [0..<sides]"
  shows "normal_body sides i s =
     Some (s\<lparr>vn_arr := vn_arr s @ [normal_line (side_normal sides h r1 r2 i)]\<rparr>)"
proof -
  from assms(1) have j: "(i + 1) mod sides < sides" by simp
  show ?thesis
    using assms j
    by (simp add: normal_body_def vector_at_def side_normal_def normal_line_def Let_def)
qed

lemma normal_loop:
  assumes "n \<le> sides"
    and "bottomVertices s = map (ring_bottom sides r1) [0..<sides]"
    and "topVertices s = map (ring_top sides h r2) [0..<sides]"
  shows "for_loop i n (normal_body sides) s =
     Some (s\<lparr>vn_arr := vn_arr s @ map (\<lambda>k. normal_line (side_normal sides h r1 r2 k)) [i..<n]\<rparr>)"
  using assms
proof (induction "n - i" arbitrary: i s)
  case 0
  then show ?case by (simp add: for_loop_done)
next
  case (Suc d)
  then have lt: "i < n" and d: "d = n - Suc i" by simp_all
  from lt Suc.prems(1) have "i < sides" by simp
  note b = normal_body_eq [OF this Suc.prems(2) Suc.prems(3)]
  show ?case
    using Suc.prems
    by (simp add: for_loop_step [where body = "normal_body sides", OF lt b] Suc.hyps(1) [OF d] upt_conv_Cons [OF lt])
qed

lemma side_body_eq: "side_body sides i s = Some (s\<lparr>f_arr := f_arr s @ side_faces sides i\<rparr>)"
  by (simp add: side_body_def side_faces_def triangle_def bottom_index_def top_index_def Let_def)

lemma side_loop:
  "for_loop i n (side_body sides) s =
     Some (s\<lparr>f_arr := f_arr s @ concat (map (side_faces sides) [i..<n])\<rparr>)"
proof (induction "n - i" arbitrary: i s)
  case 0
  then show ?case by (simp add: for_loop_done)
next
  case (Suc d)
  then have lt: "i < n" and d: "d = n - Suc i" by simp_all
  show ?case
    by (simp add: for_loop_step [where body = "side_body sides", OF lt side_body_eq] Suc.hyps(1) [OF d] upt_conv_Cons [OF lt])
qed

lemma roof_body_eq:
  "roof_body sides (top_center_index sides) i s =
     Some (s\<lparr>vn_arr := vn_arr s @ [roof_normal],
             f_arr := f_arr s @ [roof_face sides i (length (vn_arr s) + 1)]\<rparr>)"
  by (simp add: roof_body_def roof_face_def roof_normal_def triangle_def top_index_def Let_def)

lemma roof_loop:
  "for_loop i n (roof_body sides (top_center_index sides)) s =
     Some (s\<lparr>vn_arr := vn_arr s @ replicate (n - i) roof_normal,
             f_arr := f_arr s
               @ map (\<lambda>k. roof_face sides k (length (vn_arr s) + (k - i) + 1)) [i..<n]\<rparr>)"
proof (induction "n - i" arbitrary: i s)
  case 0
  then show ?case by (simp add: for_loop_done)
next
  case (Suc d)
  then have lt: "i < n" and d: "d = n - Suc i" by simp_all
  have r: "replicate (n - i) roof_normal = roof_normal # replicate (n - Suc i) roof_normal"
    using lt by (metis Suc_diff_Suc replicate_Suc)
  have m: "map (\<lambda>k. roof_face sides k (Suc (length (vn_arr s)) + (k - Suc i) + 1)) [Suc i..<n]
         = map (\<lambda>k. roof_face sides k (length (vn_arr s) + (k - i) + 1)) [Suc i..<n]"
  proof (rule map_cong [OF refl])
    fix k
    assume "k \<in> set [Suc i..<n]"
    then have "Suc i \<le> k" by simp
    then have "Suc (length (vn_arr s)) + (k - Suc i) + 1 = length (vn_arr s) + (k - i) + 1"
      by arith
    then show "roof_face sides k (Suc (length (vn_arr s)) + (k - Suc i) + 1)
             = roof_face sides k (length (vn_arr s) + (k - i) + 1)"
      by (rule arg_cong)
  qed
  show ?case
    using m by (simp add: for_loop_step [where body = "roof_body sides (top_center_index sides)", OF lt roof_body_eq] Suc.hyps(1) [OF d] upt_conv_Cons [OF lt] r)
qed

lemma floor_body_eq:
  "floor_body sides (bottom_center_index sides) i s =
     Some (s\<lparr>vn_arr := vn_arr s @ [floor_normal],
             f_arr := f_arr s @ [floor_face sides i (length (vn_arr s) + 1)]\<rparr>)"
  by (simp add: floor_body_def floor_face_def floor_normal_def triangle_def bottom_index_def Let_def)

lemma floor_loop:
  "for_loop i n (floor_body sides (bottom_center_index sides)) s =
     Some (s\<lparr>vn_arr := vn_arr s @ replicate (n - i) floor_normal,
             f_arr := f_arr s
               @ map (\<lambda>k. floor_face sides k (length (vn_arr s) + (k - i) + 1)) [i..<n]\<rparr>)"
proof (induction "n - i" arbitrary: i s)
  case 0
  then show ?case by (simp add: for_loop_done)
next
  case (Suc d)
  then have lt: "i < n" and d: "d = n - Suc i" by simp_all
  have r: "replicate (n - i) floor_normal = floor_normal # replicate (n - Suc i) floor_normal"
    using lt by (metis Suc_diff_Suc replicate_Suc)
  have m: "map (\<lambda>k. floor_face sides k (Suc (length (vn_arr s)) + (k - Suc i) + 1)) [Suc i..<n]
         = map (\<lambda>k. floor_face sides k (length (vn_arr s) + (k - i) + 1)) [Suc i..<n]"
  proof (rule map_cong [OF refl])
    fix k
    assume "k \<in> set [Suc i..<n]"
    then have "Suc i \<le> k" by simp
    then have "Suc (length (vn_arr s)) + (k - Suc i) + 1 = length (vn_arr s) + (k - i) + 1"
      by arith
    then show "floor_face sides k (Suc (length (vn_arr s)) + (k - Suc i) + 1)
             = floor_face sides k (length (vn_arr s) + (k - i) + 1)"
      by (rule arg_cong)
  qed
  show ?case
    using m by (simp add: for_loop_step [where body = "floor_body sides (bottom_center_index sides)", OF lt floor_body_eq] Suc.hyps(1) [OF d] upt_conv_Cons [OF lt] r)
qed

lemma pairs_length: "length (concat (map (\<lambda>k. [a k, b k]) [0..<n])) = 2 * n"
  by (induction n) simp_all

lemma pairs_nth:
  "i < n \<Longrightarrow> concat (map (\<lambda>k. [a k, b k]) [0..<n]) ! (i * 2) = a i
     \<and> concat (map (\<lambda>k. [a k, b k]) [0..<n]) ! (i * 2 + 1) = b i"
proof (induction n)
  case 0
  then show ?case by simp
next
  case (Suc n)
  show ?case
  proof (cases "i < n")
    case True
    with Suc.IH show ?thesis by (simp add: nth_append pairs_length)
  next
    case False
    with Suc.prems have "i = n" by simp
    then show ?thesis by (simp add: nth_append pairs_length)
  qed
qed

lemma line_at_pairs:
  "map (\<lambda>k. line_at (concat (map (\<lambda>k. [a k, b k]) [0..<n])) (k * 2)) [0..<n] = map a [0..<n]"
  "map (\<lambda>k. line_at (concat (map (\<lambda>k. [a k, b k]) [0..<n])) (k * 2 + 1)) [0..<n] = map b [0..<n]"
  by (rule map_cong [OF refl], simp add: line_at_def pairs_length pairs_nth del: One_nat_def add_Suc_right)+

lemma line_at_pairs_Suc:
  "map (\<lambda>k. line_at (concat (map (\<lambda>k. [a k, b k]) [0..<n])) (Suc (k * 2))) [0..<n] = map b [0..<n]"
  using line_at_pairs(2) [of a b n] by simp

lemma generate_eq:
  "generate sides h r1 r2 =
     Some \<lparr>v_arr = concat (map (\<lambda>k. [vertex_line (ring_bottom sides r1 k),
                                      vertex_line (ring_top sides h r2 k)]) [0..<sides]),
           vn_arr = map (\<lambda>k. normal_line (side_normal sides h r1 r2 k)) [0..<sides]
                      @ replicate sides roof_normal @ replicate sides floor_normal,
           f_arr = concat (map (side_faces sides) [0..<sides])
                     @ map (\<lambda>k. roof_face sides k (sides + k + 1)) [0..<sides]
                     @ map (\<lambda>k. floor_face sides k (2 * sides + k + 1)) [0..<sides],
           bottomVertices = map (ring_bottom sides r1) [0..<sides],
           topVertices = map (ring_top sides h r2) [0..<sides],
           vReorganized = map (\<lambda>k. vertex_line (ring_bottom sides r1 k)) [0..<sides]
                            @ map (\<lambda>k. vertex_line (ring_top sides h r2 k)) [0..<sides]
                            @ [VLine (Num 0) (Num 0) (Num 0), VLine (Num 0) h (Num 0)]\<rparr>"
proof -
  have n: "for_loop 0 sides (normal_body sides) s =
       Some (s\<lparr>vn_arr := vn_arr s @ map (\<lambda>k. normal_line (side_normal sides h r1 r2 k)) [0..<sides]\<rparr>)"
    if "bottomVertices s = map (ring_bottom sides r1) [0..<sides]"
      and "topVertices s = map (ring_top sides h r2) [0..<sides]" for s
    using that by (intro normal_loop) simp_all
  have ct: "Suc (Suc (2 * sides)) = top_center_index sides"
    and cb: "2 * sides + 1 = bottom_center_index sides"
    by (simp_all add: top_center_index_def bottom_center_index_def)
  show ?thesis
    unfolding generate_def Let_def
    by (simp add: ring_loop bottom_loop top_loop n side_loop empty_state_def line_at_pairs
        line_at_pairs_Suc ct cb roof_loop floor_loop mult_2 [symmetric] del: One_nat_def)
qed

lemma generate_fields:
  "\<exists>s. generate sides h r1 r2 = Some s
     \<and> vn_arr s = map (\<lambda>k. normal_line (side_normal sides h r1 r2 k)) [0..<sides]
                      @ replicate sides roof_normal @ replicate sides floor_normal
     \<and> f_arr s = concat (map (side_faces sides) [0..<sides])
                     @ map (\<lambda>k. roof_face sides k (sides + k + 1)) [0..<sides]
                     @ map (\<lambda>k. floor_face sides k (2 * sides + k + 1)) [0..<sides]
     \<and> bottomVertices s = map (ring_bottom sides r1) [0..<sides]
     \<and> topVertices s = map (ring_top sides h r2) [0..<sides]
     \<and> vReorganized s = map (\<lambda>k. vertex_line (ring_bottom sides r1 k)) [0..<sides]
                            @ map (\<lambda>k. vertex_line (ring_top sides h r2 k)) [0..<sides]
                            @ [VLine (Num 0) (Num 0) (Num 0), VLine (Num 0) h (Num 0)]"
  by (simp add: generate_eq)

section \<open>The faces by position\<close>

lemma side_faces_pairs:
  "side_faces sides =
     (\<lambda>i. [triangle (bottom_index i) (top_index sides i) (bottom_index ((i + 1) mod sides)) (i + 1),
           triangle (bottom_index ((i + 1) mod sides)) (top_index sides i)
             (top_index sides ((i + 1) mod sides)) (i + 1)])"
  by (simp add: side_faces_def Let_def fun_eq_iff)

lemma length_side_faces: "length (concat (map (side_faces sides) [0..<n])) = 2 * n"
  unfolding side_faces_pairs by (rule pairs_length)

lemma nth_side_faces:
  assumes "i < n"
  shows "concat (map (side_faces sides) [0..<n]) ! (2 * i) =
           triangle (bottom_index i) (top_index sides i) (bottom_index ((i + 1) mod sides)) (i + 1)"
    and "concat (map (side_faces sides) [0..<n]) ! (2 * i + 1) =
           triangle (bottom_index ((i + 1) mod sides)) (top_index sides i)
             (top_index sides ((i + 1) mod sides)) (i + 1)"
  using pairs_nth [OF assms, where a = "\<lambda>i. triangle (bottom_index i) (top_index sides i) (bottom_index ((i + 1) mod sides)) (i + 1)"
      and b = "\<lambda>i. triangle (bottom_index ((i + 1) mod sides)) (top_index sides i)
             (top_index sides ((i + 1) mod sides)) (i + 1)"]
  unfolding side_faces_pairs by (simp_all add: mult.commute)

lemma generated_face:
  assumes f: "f_arr s = concat (map (side_faces sides) [0..<sides])
                     @ map (\<lambda>k. roof_face sides k (sides + k + 1)) [0..<sides]
                     @ map (\<lambda>k. floor_face sides k (2 * sides + k + 1)) [0..<sides]"
  shows "i < sides \<Longrightarrow> f_arr s ! (2 * i) =
           triangle (bottom_index i) (top_index sides i) (bottom_index ((i + 1) mod sides)) (i + 1)"
    and "i < sides \<Longrightarrow> f_arr s ! (2 * i + 1) =
           triangle (bottom_index ((i + 1) mod sides)) (top_index sides i)
             (top_index sides ((i + 1) mod sides)) (i + 1)"
    and "i < sides \<Longrightarrow> f_arr s ! (2 * sides + i) = roof_face sides i (sides + i + 1)"
    and "i < sides \<Longrightarrow> f_arr s ! (3 * sides + i) = floor_face sides i (2 * sides + i + 1)"
proof -
  show "f_arr s ! (2 * i) =
           triangle (bottom_index i) (top_index sides i) (bottom_index ((i + 1) mod sides)) (i + 1)"
    if "i < sides"
  proof -
    from that have "2 * i < 2 * sides" by simp
    then show ?thesis
      using nth_side_faces(1) [OF that, of sides]
      by (simp add: f nth_append length_side_faces del: One_nat_def)
  qed
  show "f_arr s ! (2 * i + 1) =
           triangle (bottom_index ((i + 1) mod sides)) (top_index sides i)
             (top_index sides ((i + 1) mod sides)) (i + 1)"
    if "i < sides"
  proof -
    from that have "2 * i + 1 < 2 * sides" by simp
    then show ?thesis
      using nth_side_faces(2) [OF that, of sides]
      by (simp add: f nth_append length_side_faces del: One_nat_def)
  qed
  show "f_arr s ! (2 * sides + i) = roof_face sides i (sides + i + 1)" if "i < sides"
    using that by (simp add: f nth_append length_side_faces)
  show "f_arr s ! (3 * sides + i) = floor_face sides i (2 * sides + i + 1)" if "i < sides"
  proof -
    have "3 * sides + i - 2 * sides - sides = i" by simp
    with that show ?thesis by (simp add: f nth_append length_side_faces)
  qed
qed

text \<open>The normal that face number \<open>k\<close> (from 0) refers to.\<close>

lemma generated_normal_indices:
  assumes f: "f_arr s = concat (map (side_faces sides) [0..<sides])
                     @ map (\<lambda>k. roof_face sides k (sides + k + 1)) [0..<sides]
                     @ map (\<lambda>k. floor_face sides k (2 * sides + k + 1)) [0..<sides]"
    and k: "k < 4 * sides"
  shows "normal_indices (f_arr s ! k) =
           (if k < 2 * sides then [k div 2 + 1, k div 2 + 1, k div 2 + 1]
            else [k - sides + 1, k - sides + 1, k - sides + 1])"
proof -
  consider (side0) "k < 2 * sides" "even k" | (side1) "k < 2 * sides" "odd k"
    | (roof) "2 * sides \<le> k" "k < 3 * sides" | (floor) "3 * sides \<le> k"
    by linarith
  then show ?thesis
  proof cases
    case side0
    then obtain i where i: "k = 2 * i" by (auto elim: evenE)
    with side0 have "i < sides" by simp
    from generated_face(1) [OF f this] show ?thesis
      using side0 i by (simp add: triangle_def)
  next
    case side1
    then obtain i where i: "k = 2 * i + 1" by (auto elim: oddE)
    with side1 have "i < sides" by simp
    from generated_face(2) [OF f this] show ?thesis
      using side1 i by (simp add: triangle_def)
  next
    case roof
    define i where "i = k - 2 * sides"
    with roof have i: "k = 2 * sides + i" "i < sides" by simp_all
    from generated_face(3) [OF f i(2)] show ?thesis
      using i by (simp add: roof_face_def triangle_def)
  next
    case floor
    define i where "i = k - 3 * sides"
    with floor k have i: "k = 3 * sides + i" "i < sides" by simp_all
    from generated_face(4) [OF f i(2)] show ?thesis
      using i by (simp add: floor_face_def triangle_def)
  qed
qed

section \<open>The range of binary64\<close>

lemma tiny_bounds: "0 < tiny" "tiny < 1 / 10 ^ 323"
  by (simp_all add: tiny_def)

lemma huge_bounds: "10 ^ 308 < huge" "huge < 10 ^ 309"
  by (simp_all add: huge_def)

lemma fl_0: "fl 0 = Num 0"
  using tiny_bounds(1) huge_bounds(1) by (simp add: fl_def)

lemma fl_id: "tiny < \<bar>x\<bar> \<Longrightarrow> \<bar>x\<bar> < huge \<Longrightarrow> fl x = Num x"
  by (simp add: fl_def)

lemma fl_range: "1 / 10 ^ 323 \<le> \<bar>x\<bar> \<Longrightarrow> \<bar>x\<bar> \<le> 10 ^ 308 \<Longrightarrow> fl x = Num x"
  using tiny_bounds(2) huge_bounds(1) by (intro fl_id) linarith+

lemma fl_overflow: "10 ^ 309 \<le> x \<Longrightarrow> fl x = PInf" "x \<le> - (10 ^ 309) \<Longrightarrow> fl x = NInf"
  using huge_bounds(2) by (simp_all add: fl_def signed_inf_def)

lemma fl_underflow: "\<bar>x\<bar> \<le> 1 / 10 ^ 324 \<Longrightarrow> fl x = Num 0"
proof -
  have "(1::real) / 10 ^ 324 \<le> tiny" by (simp add: tiny_def)
  moreover have "tiny < huge" using tiny_bounds(2) huge_bounds(1) by simp
  ultimately show "\<bar>x\<bar> \<le> 1 / 10 ^ 324 \<Longrightarrow> fl x = Num 0"
    by (simp add: fl_def)
qed

lemma fl_of_int:
  "jlt (fl (of_int k)) (Num 3) = (k < 3)"
  "jlt (Num 36) (fl (of_int k)) = (36 < k)"
  "\<not> isNaN (fl (of_int k))"
proof -
  have h: "36 < huge" and t: "tiny < 1" "0 < tiny"
    using huge_bounds(1) tiny_bounds by simp_all
  have z: "k = 0" if "\<bar>real_of_int k\<bar> \<le> tiny"
  proof -
    from that t have "\<bar>real_of_int k\<bar> < 1" by simp
    then have "\<bar>k\<bar> < 1" by linarith
    then show ?thesis by simp
  qed
  show "jlt (fl (of_int k)) (Num 3) = (k < 3)"
    using h t z by (auto simp: fl_def signed_inf_def)
  show "jlt (Num 36) (fl (of_int k)) = (36 < k)"
    using h t z by (auto simp: fl_def signed_inf_def)
  show "\<not> isNaN (fl (of_int k))"
    by (simp add: fl_def signed_inf_def)
qed


section \<open>The run of the program\<close>

lemma main_eq:
  "main ns args =
     (let sides = arg_or args 0 parseInt (Some 8);
          h = arg_or args 1 parseFloat (Num 6);
          r1 = arg_or args 2 parseFloat (Num 1);
          r2 = arg_or args 3 parseFloat (Num (8 / 10))
      in if invalid sides h r1 r2 then ConsoleError error_message
         else write_obj ns (num_of sides) h r1 r2 (the (generate (rounds sides) h r1 r2)))"
  by (simp add: main_def Let_def generate_eq)

lemma writes_file_main:
  "writes_file (main ns args) =
     (\<not> invalid (arg_or args 0 parseInt (Some 8)) (arg_or args 1 parseFloat (Num 6))
          (arg_or args 2 parseFloat (Num 1)) (arg_or args 3 parseFloat (Num (8 / 10))))"
  by (simp add: main_eq Let_def write_obj_def)

lemma invalid_iff:
  "invalid sides h r1 r2 =
     (sides = None \<or> (\<exists>k. sides = Some k \<and> (k < 3 \<or> 36 < k))
      \<or> jle h (Num 0) \<or> jle r1 (Num 0) \<or> jle r2 (Num 0))"
  by (cases sides) (auto simp: invalid_def num_of_def fl_of_int)

lemma defaults_valid: "\<not> invalid (Some 8) (Num 6) (Num 1) (Num (8 / 10))"
  by (simp add: invalid_iff)

lemmas parse_simps =
  parseInt_def parseFloat_def strip_sign_def strip_hex_prefix_def is_ws_def radix_digit_def
  digit_val_def digits_val_def dec_digit_def exponent_part_def scale10_def arg_or_def ascii_def

lemma ascii_nonempty: "ascii (c # cs) \<noteq> []"
  by (simp add: ascii_def)

lemma parseInt_examples:
  "parseInt (ascii ''2'') = Some 2"
  "parseInt (ascii ''37'') = Some 37"
  "parseInt (ascii ''8'') = Some 8"
  "parseInt (ascii ''3.5'') = Some 3"
  "parseInt (160 # ascii ''8'') = Some 8"
  by (simp_all add: parse_simps)

lemma parseFloat_examples:
  "parseFloat (ascii ''0'') = Num 0"
  "parseFloat (ascii ''6'') = Num 6"
  "parseFloat (ascii ''6.0'') = Num 6"
  "parseFloat (ascii ''1.0'') = Num 1"
  "parseFloat (ascii ''0.8'') = Num (8 / 10)"
  "parseFloat (ascii ''-1'') = Num (- 1)"
  "parseFloat (ascii ''abc'') = NaN"
  by (simp_all add: parse_simps fl_0 fl_range)

lemma parseFloat_range:
  "parseFloat (ascii ''1e-324'') = Num 0"
  "parseFloat (ascii ''1e400'') = PInf"
  by (simp_all add: parse_simps fl_underflow fl_overflow)

lemma valid_3: "valid_parameters 3 (Num 1) (Num 1) (Num 1)"
  by (simp add: valid_parameters_def positive_def)

lemma valid_parameters_reals:
  "valid_parameters sides h r1 r2 =
     (3 \<le> sides \<and> sides \<le> 36
      \<and> (\<exists>hr a b. h = Num hr \<and> r1 = Num a \<and> r2 = Num b \<and> 0 < hr \<and> 0 < a \<and> 0 < b))"
  by (cases h; cases r1; cases r2) (auto simp: valid_parameters_def positive_def)

lemma render_kind:
  "is_vertex_line l = (take 2 (render ns l) = ''v '')"
  "is_normal_line l = (take 3 (render ns l) = ''vn '')"
  "is_face_line l = (take 2 (render ns l) = ''f '')"
  by (cases l; simp add: render_def)+

section \<open>Printed numbers\<close>

lemma nat_str_digit: "n < 10 \<Longrightarrow> nat_str n = [digit_char n]"
  by (simp add: nat_str.simps)

lemma pad4_one: "pad4 [c] = ''000'' @ [c]"
  by (simp add: pad4_def numeral_3_eq_3)

lemma fmt_0: "fmt ns (Num 0) = ''0.0000''"
  by (simp add: fmt_def toFixed4_def fixed4_def pad4_one nat_str_digit digit_char_def)

lemma fmt_1: "fmt ns (Num 1) = ''1.0000''"
  by (simp add: fmt_def toFixed4_def fixed4_def pad4_one nat_str_digit digit_char_def)

lemma fmt_6: "fmt ns (Num 6) = ''6.0000''"
  by (simp add: fmt_def toFixed4_def fixed4_def pad4_one nat_str_digit digit_char_def)

lemma nat_str_8000: "nat_str 8000 = ''8000''"
  by (simp add: nat_str.simps digit_char_def)

lemma fmt_08: "fmt ns (Num (4 / 5)) = ''0.8000''"
  by (simp add: fmt_def toFixed4_def fixed4_def pad4_def nat_str_8000 nat_str_digit digit_char_def)

section \<open>Unit normals\<close>







section \<open>The text of the file\<close>

lemma join_lines: "join sep (x # xs) = x @ concat (map (\<lambda>l. sep @ l) xs)"
  by (induction xs arbitrary: x) simp_all

lemma digit_char_code: "d < 10 \<Longrightarrow> of_char (digit_char d) = 48 + d"
proof -
  assume "d < 10"
  then have "d \<in> {0, 1, 2, 3, 4, 5, 6, 7, 8, 9}" by auto
  then show ?thesis by (auto simp: digit_char_def)
qed

lemma digit_char_digit: "d < 10 \<Longrightarrow> digit_char d \<in> set ''0123456789''"
proof -
  assume "d < 10"
  then have "d \<in> {0, 1, 2, 3, 4, 5, 6, 7, 8, 9}" by auto
  then show ?thesis by (auto simp: digit_char_def)
qed

lemma nat_str_decimal:
  "foldl (\<lambda>a c. 10 * a + (of_char c - 48)) 0 (nat_str n) = n"
proof (induction n rule: nat_str.induct)
  case (1 n)
  show ?case
  proof (cases "n < 10")
    case True
    then show ?thesis by (simp add: nat_str_digit digit_char_code)
  next
    case False
    then have "nat_str n = nat_str (n div 10) @ [digit_char (n mod 10)]"
      by (subst nat_str.simps) simp
    with 1 False show ?thesis
      by (simp add: digit_char_code)
  qed
qed

lemma nat_str_digits: "set (nat_str n) \<subseteq> set ''0123456789''"
proof (induction n rule: nat_str.induct)
  case (1 n)
  show ?case
  proof (cases "n < 10")
    case True
    then show ?thesis using digit_char_digit [of n] by (simp add: nat_str_digit)
  next
    case False
    then have "nat_str n = nat_str (n div 10) @ [digit_char (n mod 10)]"
      by (subst nat_str.simps) simp
    with 1 False show ?thesis
      using digit_char_digit [of "n mod 10"] by simp
  qed
qed

lemma nat_str_no_newline: "CHR 0x0A \<notin> set (nat_str n)"
  using nat_str_digits [of n] by auto

lemma toString_no_newline:
  assumes "\<forall>a. CHR 0x0A \<notin> set (ns a)"
  shows "CHR 0x0A \<notin> set (toString ns x)"
  using assms by (cases x) (simp_all add: toString_def int_str_def nat_str_no_newline)

lemma fmt_no_newline:
  assumes "\<forall>a. CHR 0x0A \<notin> set (ns a)"
  shows "CHR 0x0A \<notin> set (fmt ns x)"
proof -
  have f: "CHR 0x0A \<notin> set (fixed4 a)" for a
    by (simp add: fixed4_def Let_def pad4_def nat_str_no_newline)
  show ?thesis
    using toString_no_newline [OF assms]
    by (cases x) (simp_all add: fmt_def toFixed4_def f)
qed

lemma render_no_newline:
  assumes "\<forall>a. CHR 0x0A \<notin> set (ns a)"
  shows "CHR 0x0A \<notin> set (render ns l)"
  using fmt_no_newline [OF assms]
  by (cases l) (simp_all add: render_def nat_str_no_newline)

lemma generated_kinds:
  assumes "generate n h r1 r2 = Some s"
  shows "filter is_vertex_line (vReorganized s @ vn_arr s @ f_arr s) = vReorganized s"
    and "filter is_normal_line (vReorganized s @ vn_arr s @ f_arr s) = vn_arr s"
    and "filter is_face_line (vReorganized s @ vn_arr s @ f_arr s) = f_arr s"
    and "length (vReorganized s) = 2 * n + 2"
    and "length (vn_arr s) = 3 * n"
    and "length (f_arr s) = 4 * n"
proof -
  from assms generate_fields [of n h r1 r2]
  have vn: "vn_arr s = map (\<lambda>k. normal_line (side_normal n h r1 r2 k)) [0..<n]
                      @ replicate n roof_normal @ replicate n floor_normal"
    and f: "f_arr s = concat (map (side_faces n) [0..<n])
                     @ map (\<lambda>k. roof_face n k (n + k + 1)) [0..<n]
                     @ map (\<lambda>k. floor_face n k (2 * n + k + 1)) [0..<n]"
    and v: "vReorganized s = map (\<lambda>k. vertex_line (ring_bottom n r1 k)) [0..<n]
                            @ map (\<lambda>k. vertex_line (ring_top n h r2 k)) [0..<n]
                            @ [VLine (Num 0) (Num 0) (Num 0), VLine (Num 0) h (Num 0)]"
    by auto
  have kv: "filter is_vertex_line (vReorganized s) = vReorganized s"
    "filter is_normal_line (vReorganized s) = []" "filter is_face_line (vReorganized s) = []"
    by (simp_all add: v vertex_line_def filter_empty_conv)
  have kn: "filter is_vertex_line (vn_arr s) = []"
    "filter is_normal_line (vn_arr s) = vn_arr s" "filter is_face_line (vn_arr s) = []"
    by (simp_all add: vn normal_line_def roof_normal_def floor_normal_def filter_empty_conv)
  have "is_face_line l \<and> \<not> is_vertex_line l \<and> \<not> is_normal_line l" if "l \<in> set (f_arr s)" for l
    using that
    by (auto simp: f side_faces_def Let_def roof_face_def floor_face_def triangle_def)
  then have kf: "filter is_vertex_line (f_arr s) = []"
    "filter is_normal_line (f_arr s) = []" "filter is_face_line (f_arr s) = f_arr s"
    by (simp_all add: filter_empty_conv filter_id_conv)
  show "filter is_vertex_line (vReorganized s @ vn_arr s @ f_arr s) = vReorganized s"
    "filter is_normal_line (vReorganized s @ vn_arr s @ f_arr s) = vn_arr s"
    "filter is_face_line (vReorganized s @ vn_arr s @ f_arr s) = f_arr s"
    by (simp_all add: kv kn kf)
  show "length (vReorganized s) = 2 * n + 2" "length (vn_arr s) = 3 * n"
    "length (f_arr s) = 4 * n"
    by (simp_all add: v vn f length_side_faces)
qed


section \<open>Counts and order of the output (C1)\<close>




section \<open>Rejected inputs (C2)\<close>

text \<open>
  C2, as the code has it. For every input whose \<open>sides\<close> argument \<open>parseInt\<close> reads as \<open>NaN\<close>
  or as an integer outside \<open>[3, 36]\<close>, or one of whose \<open>height\<close>, \<open>baseRadius\<close>, \<open>topRadius\<close>
  arguments \<open>parseFloat\<close> reads as a number that is \<open>\<le> 0\<close>, the program prints the error
  message and returns without writing a file. The witness holds the inputs \<open>sides = 2\<close>,
  \<open>sides = 37\<close>, \<open>height = 0\<close> and \<open>baseRadius = -1\<close>.
\<close>

theorem invalid_parameters_rejected:
  assumes "sides = arg_or args 0 parseInt (Some 8)"
    and "h = arg_or args 1 parseFloat (Num 6)"
    and "r1 = arg_or args 2 parseFloat (Num 1)"
    and "r2 = arg_or args 3 parseFloat (Num (8 / 10))"
    and "sides = None \<or> (\<exists>k. sides = Some k \<and> (k < 3 \<or> 36 < k))
         \<or> jle h (Num 0) \<or> jle r1 (Num 0) \<or> jle r2 (Num 0)"
  shows "main ns args = ConsoleError error_message \<and> \<not> writes_file (main ns args)"
proof -
  from assms(5) have "invalid sides h r1 r2" by (simp only: invalid_iff)
  then show ?thesis
    unfolding assms(1-4) by (simp add: main_eq Let_def)
qed

theorem invalid_parameters_rejected_witness:
  "main no_digits [ascii ''2''] = ConsoleError error_message
   \<and> main no_digits [ascii ''37''] = ConsoleError error_message
   \<and> main no_digits [ascii ''8'', ascii ''0''] = ConsoleError error_message
   \<and> main no_digits [ascii ''8'', ascii ''6'', ascii ''-1''] = ConsoleError error_message"
proof -
  have "main no_digits [ascii ''2''] = ConsoleError error_message"
    using invalid_parameters_rejected [OF refl refl refl refl, of "[ascii ''2'']" no_digits]
    by (simp add: arg_or_def ascii_nonempty parseInt_examples parseFloat_examples)
  moreover have "main no_digits [ascii ''37''] = ConsoleError error_message"
    using invalid_parameters_rejected [OF refl refl refl refl, of "[ascii ''37'']" no_digits]
    by (simp add: arg_or_def ascii_nonempty parseInt_examples parseFloat_examples)
  moreover have "main no_digits [ascii ''8'', ascii ''0''] = ConsoleError error_message"
    using invalid_parameters_rejected [OF refl refl refl refl, of "[ascii ''8'', ascii ''0'']" no_digits]
    by (simp add: arg_or_def ascii_nonempty parseInt_examples parseFloat_examples)
  moreover have "main no_digits [ascii ''8'', ascii ''6'', ascii ''-1''] = ConsoleError error_message"
    using invalid_parameters_rejected [OF refl refl refl refl, of "[ascii ''8'', ascii ''6'', ascii ''-1'']" no_digits]
    by (simp add: arg_or_def ascii_nonempty parseInt_examples parseFloat_examples)
  ultimately show ?thesis by simp
qed

text \<open>
  The claim as stated fails at \<open>sides = 3.5\<close>: \<open>parseInt\<close> reads the argument as \<open>3\<close>, and the
  file is written.
\<close>

theorem fractional_sides_accepted:
  "parseInt (ascii ''3.5'') = Some 3 \<and> writes_file (main no_digits [ascii ''3.5''])
   \<and> main no_digits [ascii ''3.5''] \<noteq> ConsoleError error_message"
proof -
  have p: "parseInt (ascii ''3.5'') = Some 3" by (rule parseInt_examples)
  have w: "writes_file (main no_digits [ascii ''3.5''])"
    by (simp add: writes_file_main arg_or_def ascii_nonempty p invalid_iff)
  then have "main no_digits [ascii ''3.5''] \<noteq> ConsoleError error_message" by auto
  with p w show ?thesis by simp
qed

text \<open>
  A height that is not numeric is read as \<open>NaN\<close>, which is not \<open>\<le> 0\<close>: line 23 tests
  \<open>isNaN\<close> on \<open>sides\<close> only, and the file is written.
\<close>

lemma non_numeric_height_accepted:
  "parseFloat (ascii ''abc'') = NaN \<and> writes_file (main no_digits [ascii ''8'', ascii ''abc''])"
proof -
  have p: "parseFloat (ascii ''abc'') = NaN" "parseInt (ascii ''8'') = Some 8"
    by (rule parseFloat_examples, rule parseInt_examples)
  have w: "writes_file (main no_digits [ascii ''8'', ascii ''abc''])"
    by (simp add: writes_file_main arg_or_def ascii_nonempty p invalid_iff)
  with p show ?thesis by simp
qed


section \<open>Order of the vertex list (C3)\<close>

text \<open>
  C3. For every valid parameter set, the vertex list holds the \<open>sides\<close> bottom ring
  vertices in ring order, then the \<open>sides\<close> top ring vertices in the same order, then
  exactly two centre vertices: bottom-center \<open>(0, 0, 0)\<close> at 1-based position
  \<open>2 sides + 1\<close> and top-center \<open>(0, height, 0)\<close> at position \<open>2 sides + 2\<close>, the last one.
\<close>

theorem vertex_list_order:
  assumes "valid_parameters sides h r1 r2"
  shows "\<exists>s. generate sides h r1 r2 = Some s
      \<and> vReorganized s =
          map (\<lambda>i. vertex_line (ring_bottom sides r1 i)) [0..<sides]
          @ map (\<lambda>i. vertex_line (ring_top sides h r2 i)) [0..<sides]
          @ [VLine (Num 0) (Num 0) (Num 0), VLine (Num 0) h (Num 0)]
      \<and> (\<forall>i<sides. vReorganized s ! (bottom_index i - 1) = vertex_line (bottomVertices s ! i)
                   \<and> vReorganized s ! (top_index sides i - 1) = vertex_line (topVertices s ! i)
                   \<and> bottom_index i < top_index sides 0
                   \<and> top_index sides i < bottom_center_index sides)
      \<and> bottom_center_index sides = 2 * sides + 1
      \<and> top_center_index sides = 2 * sides + 2
      \<and> vReorganized s ! (bottom_center_index sides - 1) = VLine (Num 0) (Num 0) (Num 0)
      \<and> vReorganized s ! (top_center_index sides - 1) = VLine (Num 0) h (Num 0)
      \<and> length (vReorganized s) = top_center_index sides"
proof -
  from generate_fields [of sides h r1 r2] obtain s where g: "generate sides h r1 r2 = Some s"
    and b: "bottomVertices s = map (ring_bottom sides r1) [0..<sides]"
    and t: "topVertices s = map (ring_top sides h r2) [0..<sides]"
    and v: "vReorganized s = map (\<lambda>k. vertex_line (ring_bottom sides r1 k)) [0..<sides]
                            @ map (\<lambda>k. vertex_line (ring_top sides h r2 k)) [0..<sides]
                            @ [VLine (Num 0) (Num 0) (Num 0), VLine (Num 0) h (Num 0)]"
    by blast
  have 1: "\<forall>i<sides. vReorganized s ! (bottom_index i - 1) = vertex_line (bottomVertices s ! i)
                   \<and> vReorganized s ! (top_index sides i - 1) = vertex_line (topVertices s ! i)
                   \<and> bottom_index i < top_index sides 0
                   \<and> top_index sides i < bottom_center_index sides"
    by (simp add: v b t bottom_index_def top_index_def bottom_center_index_def nth_append)
  have 2: "vReorganized s ! (bottom_center_index sides - 1) = VLine (Num 0) (Num 0) (Num 0)"
    by (simp add: v bottom_center_index_def nth_append)
  have 3: "vReorganized s ! (top_center_index sides - 1) = VLine (Num 0) h (Num 0)"
    by (simp add: v top_center_index_def nth_append)
  have 4: "length (vReorganized s) = top_center_index sides"
    by (simp add: v top_center_index_def)
  from g v 1 2 3 4 show ?thesis
    by (auto simp: bottom_center_index_def top_center_index_def)
qed

theorem vertex_list_order_witness:
  "valid_parameters 3 (Num 1) (Num 1) (Num 1)
   \<and> (\<exists>s. generate 3 (Num 1) (Num 1) (Num 1) = Some s
        \<and> vReorganized s ! 6 = VLine (Num 0) (Num 0) (Num 0)
        \<and> vReorganized s ! 7 = VLine (Num 0) (Num 1) (Num 0)
        \<and> length (vReorganized s) = 8)"
  using vertex_list_order [OF valid_3] valid_3
  by (auto simp: bottom_center_index_def top_center_index_def)


section \<open>Side faces (C4)\<close>

text \<open>
  C4. For every valid parameter set and every \<open>i < sides\<close>, with \<open>j = (i + 1) mod sides\<close>, the
  side faces of position \<open>i\<close> are the two triangles \<open>(bottom[i], top[i], bottom[j])\<close> and
  \<open>(bottom[j], top[i], top[j])\<close>, in that vertex order, at places \<open>2 i\<close> and \<open>2 i + 1\<close> of the
  face list (so in \<open>i\<close>-order), and all six index pairs refer to normal \<open>i + 1\<close>, which is
  side normal \<open>i\<close>.
\<close>

theorem side_faces_of_position:
  assumes "valid_parameters sides h r1 r2"
  shows "\<exists>s. generate sides h r1 r2 = Some s
      \<and> take (2 * sides) (f_arr s) = concat (map (side_faces sides) [0..<sides])
      \<and> (\<forall>i<sides.
            f_arr s ! (2 * i) =
              FLine (bottom_index i) (i + 1) (top_index sides i) (i + 1)
                    (bottom_index ((i + 1) mod sides)) (i + 1)
          \<and> f_arr s ! (2 * i + 1) =
              FLine (bottom_index ((i + 1) mod sides)) (i + 1) (top_index sides i) (i + 1)
                    (top_index sides ((i + 1) mod sides)) (i + 1)
          \<and> vn_arr s ! (i + 1 - 1) = normal_line (side_normal sides h r1 r2 i))"
proof -
  from generate_fields [of sides h r1 r2] obtain s where g: "generate sides h r1 r2 = Some s"
    and vn: "vn_arr s = map (\<lambda>k. normal_line (side_normal sides h r1 r2 k)) [0..<sides]
                      @ replicate sides roof_normal @ replicate sides floor_normal"
    and f: "f_arr s = concat (map (side_faces sides) [0..<sides])
                     @ map (\<lambda>k. roof_face sides k (sides + k + 1)) [0..<sides]
                     @ map (\<lambda>k. floor_face sides k (2 * sides + k + 1)) [0..<sides]"
    by blast
  have 1: "take (2 * sides) (f_arr s) = concat (map (side_faces sides) [0..<sides])"
    by (simp add: f length_side_faces)
  have 2: "f_arr s ! (2 * i) =
              FLine (bottom_index i) (i + 1) (top_index sides i) (i + 1)
                    (bottom_index ((i + 1) mod sides)) (i + 1)"
    and 3: "f_arr s ! (2 * i + 1) =
              FLine (bottom_index ((i + 1) mod sides)) (i + 1) (top_index sides i) (i + 1)
                    (top_index sides ((i + 1) mod sides)) (i + 1)"
    and 4: "vn_arr s ! (i + 1 - 1) = normal_line (side_normal sides h r1 r2 i)"
    if "i < sides" for i
    using that generated_face(1) [OF f that] generated_face(2) [OF f that]
    by (simp_all add: triangle_def vn nth_append del: One_nat_def)
  from g 1 2 3 4 show ?thesis by blast
qed

theorem side_faces_of_position_witness:
  "valid_parameters 3 (Num 1) (Num 1) (Num 1)
   \<and> (\<exists>s. generate 3 (Num 1) (Num 1) (Num 1) = Some s
        \<and> f_arr s ! 4 = FLine 3 3 6 3 1 3
        \<and> f_arr s ! 5 = FLine 1 3 6 3 4 3)"
proof -
  from side_faces_of_position [OF valid_3] obtain s
    where g: "generate 3 (Num 1) (Num 1) (Num 1) = Some s"
      and a: "\<forall>i<3.
            f_arr s ! (2 * i) =
              FLine (bottom_index i) (i + 1) (top_index 3 i) (i + 1)
                    (bottom_index ((i + 1) mod 3)) (i + 1)
          \<and> f_arr s ! (2 * i + 1) =
              FLine (bottom_index ((i + 1) mod 3)) (i + 1) (top_index 3 i) (i + 1)
                    (top_index 3 ((i + 1) mod 3)) (i + 1)
          \<and> vn_arr s ! (i + 1 - 1) = normal_line (side_normal 3 (Num 1) (Num 1) (Num 1) i)"
    by blast
  from a [rule_format, of 2] have "f_arr s ! 4 = FLine 3 3 6 3 1 3" "f_arr s ! 5 = FLine 1 3 6 3 4 3"
    by (simp_all add: bottom_index_def top_index_def)
  with g valid_3 show ?thesis by blast
qed


section \<open>Roof and floor faces (C5)\<close>

text \<open>
  C5. For every valid parameter set and every \<open>i < sides\<close>, with \<open>next = (i + 1) mod sides\<close>:
  each round of the roof loop appends a new normal \<open>(0, 1, 0)\<close> and then the triangle
  \<open>(top-center, top[next], top[i])\<close> whose normal index is the length of the normal list
  just after that append; each round of the floor loop does the same with \<open>(0, -1, 0)\<close>
  and \<open>(bottom-center, bottom[i], bottom[next])\<close>. In the output, roof face \<open>i\<close> refers to
  normal \<open>sides + i + 1\<close> and floor face \<open>i\<close> to normal \<open>2 sides + i + 1\<close>, which are these
  vectors exactly, and a roof or floor face shares its normal with no other face.
\<close>

theorem roof_and_floor_faces:
  assumes "valid_parameters sides h r1 r2"
  shows "(\<forall>i s. \<exists>s'. roof_body sides (top_center_index sides) i s = Some s'
            \<and> vn_arr s' = vn_arr s @ [VNLine (Num 0) (Num 1) (Num 0)]
            \<and> f_arr s' = f_arr s @ [roof_face sides i (length (vn_arr s'))])
      \<and> (\<forall>i s. \<exists>s'. floor_body sides (bottom_center_index sides) i s = Some s'
            \<and> vn_arr s' = vn_arr s @ [VNLine (Num 0) (Num (- 1)) (Num 0)]
            \<and> f_arr s' = f_arr s @ [floor_face sides i (length (vn_arr s'))])
      \<and> (\<exists>s. generate sides h r1 r2 = Some s
           \<and> (\<forall>i<sides.
                 f_arr s ! (2 * sides + i) =
                   FLine (top_center_index sides) (sides + i + 1)
                         (top_index sides ((i + 1) mod sides)) (sides + i + 1)
                         (top_index sides i) (sides + i + 1)
               \<and> vn_arr s ! (sides + i + 1 - 1) = VNLine (Num 0) (Num 1) (Num 0)
               \<and> f_arr s ! (3 * sides + i) =
                   FLine (bottom_center_index sides) (2 * sides + i + 1)
                         (bottom_index i) (2 * sides + i + 1)
                         (bottom_index ((i + 1) mod sides)) (2 * sides + i + 1)
               \<and> vn_arr s ! (2 * sides + i + 1 - 1) = VNLine (Num 0) (Num (- 1)) (Num 0))
           \<and> (\<forall>k<length (f_arr s). \<forall>k'<length (f_arr s). 2 * sides \<le> k \<longrightarrow> k' \<noteq> k \<longrightarrow>
                 set (normal_indices (f_arr s ! k)) \<inter> set (normal_indices (f_arr s ! k')) = {}))"
proof -
  have roof: "\<forall>i s. \<exists>s'. roof_body sides (top_center_index sides) i s = Some s'
            \<and> vn_arr s' = vn_arr s @ [VNLine (Num 0) (Num 1) (Num 0)]
            \<and> f_arr s' = f_arr s @ [roof_face sides i (length (vn_arr s'))]"
    by (simp add: roof_body_eq roof_normal_def)
  have floor: "\<forall>i s. \<exists>s'. floor_body sides (bottom_center_index sides) i s = Some s'
            \<and> vn_arr s' = vn_arr s @ [VNLine (Num 0) (Num (- 1)) (Num 0)]
            \<and> f_arr s' = f_arr s @ [floor_face sides i (length (vn_arr s'))]"
    by (simp add: floor_body_eq floor_normal_def)
  from generate_fields [of sides h r1 r2] obtain s where g: "generate sides h r1 r2 = Some s"
    and vn: "vn_arr s = map (\<lambda>k. normal_line (side_normal sides h r1 r2 k)) [0..<sides]
                      @ replicate sides roof_normal @ replicate sides floor_normal"
    and f: "f_arr s = concat (map (side_faces sides) [0..<sides])
                     @ map (\<lambda>k. roof_face sides k (sides + k + 1)) [0..<sides]
                     @ map (\<lambda>k. floor_face sides k (2 * sides + k + 1)) [0..<sides]"
    by blast
  have len: "length (f_arr s) = 4 * sides" by (simp add: f length_side_faces)
  have faces: "\<forall>i<sides.
                 f_arr s ! (2 * sides + i) =
                   FLine (top_center_index sides) (sides + i + 1)
                         (top_index sides ((i + 1) mod sides)) (sides + i + 1)
                         (top_index sides i) (sides + i + 1)
               \<and> vn_arr s ! (sides + i + 1 - 1) = VNLine (Num 0) (Num 1) (Num 0)
               \<and> f_arr s ! (3 * sides + i) =
                   FLine (bottom_center_index sides) (2 * sides + i + 1)
                         (bottom_index i) (2 * sides + i + 1)
                         (bottom_index ((i + 1) mod sides)) (2 * sides + i + 1)
               \<and> vn_arr s ! (2 * sides + i + 1 - 1) = VNLine (Num 0) (Num (- 1)) (Num 0)"
  proof (intro allI impI conjI)
    fix i
    assume i: "i < sides"
    show "f_arr s ! (2 * sides + i) =
                   FLine (top_center_index sides) (sides + i + 1)
                         (top_index sides ((i + 1) mod sides)) (sides + i + 1)
                         (top_index sides i) (sides + i + 1)"
      by (simp add: generated_face(3) [OF f i] roof_face_def triangle_def)
    show "f_arr s ! (3 * sides + i) =
                   FLine (bottom_center_index sides) (2 * sides + i + 1)
                         (bottom_index i) (2 * sides + i + 1)
                         (bottom_index ((i + 1) mod sides)) (2 * sides + i + 1)"
      by (simp add: generated_face(4) [OF f i] floor_face_def triangle_def)
    show "vn_arr s ! (sides + i + 1 - 1) = VNLine (Num 0) (Num 1) (Num 0)"
      using i by (simp add: vn nth_append roof_normal_def)
    show "vn_arr s ! (2 * sides + i + 1 - 1) = VNLine (Num 0) (Num (- 1)) (Num 0)"
      using i by (simp add: vn nth_append floor_normal_def)
  qed
  have fresh: "\<forall>k<length (f_arr s). \<forall>k'<length (f_arr s). 2 * sides \<le> k \<longrightarrow> k' \<noteq> k \<longrightarrow>
                 set (normal_indices (f_arr s ! k)) \<inter> set (normal_indices (f_arr s ! k')) = {}"
  proof (intro allI impI)
    fix k k'
    assume k: "k < length (f_arr s)" and k': "k' < length (f_arr s)"
      and roof_or_floor: "2 * sides \<le> k" and other: "k' \<noteq> k"
    from k k' len have "k < 4 * sides" "k' < 4 * sides" by simp_all
    from generated_normal_indices [OF f this(1)] generated_normal_indices [OF f this(2)]
    show "set (normal_indices (f_arr s ! k)) \<inter> set (normal_indices (f_arr s ! k')) = {}"
      using roof_or_floor other by (auto split: if_splits)
  qed
  from roof floor g faces fresh show ?thesis by blast
qed

theorem roof_and_floor_faces_witness:
  "valid_parameters 3 (Num 1) (Num 1) (Num 1)
   \<and> (\<exists>s. generate 3 (Num 1) (Num 1) (Num 1) = Some s
        \<and> f_arr s ! 6 = FLine 8 4 5 4 4 4
        \<and> vn_arr s ! 3 = VNLine (Num 0) (Num 1) (Num 0)
        \<and> f_arr s ! 11 = FLine 7 9 3 9 1 9
        \<and> vn_arr s ! 8 = VNLine (Num 0) (Num (- 1)) (Num 0))"
proof -
  from roof_and_floor_faces [OF valid_3] obtain s
    where g: "generate 3 (Num 1) (Num 1) (Num 1) = Some s"
      and a: "\<forall>i<3.
                 f_arr s ! (2 * 3 + i) =
                   FLine (top_center_index 3) (3 + i + 1)
                         (top_index 3 ((i + 1) mod 3)) (3 + i + 1)
                         (top_index 3 i) (3 + i + 1)
               \<and> vn_arr s ! (3 + i + 1 - 1) = VNLine (Num 0) (Num 1) (Num 0)
               \<and> f_arr s ! (3 * 3 + i) =
                   FLine (bottom_center_index 3) (2 * 3 + i + 1)
                         (bottom_index i) (2 * 3 + i + 1)
                         (bottom_index ((i + 1) mod 3)) (2 * 3 + i + 1)
               \<and> vn_arr s ! (2 * 3 + i + 1 - 1) = VNLine (Num 0) (Num (- 1)) (Num 0)"
    by blast
  from a [rule_format, of 0] a [rule_format, of 2]
  have "f_arr s ! 6 = FLine 8 4 5 4 4 4" "vn_arr s ! 3 = VNLine (Num 0) (Num 1) (Num 0)"
    "f_arr s ! 11 = FLine 7 9 3 9 1 9" "vn_arr s ! 8 = VNLine (Num 0) (Num (- 1)) (Num 0)"
    by (simp_all add: bottom_index_def top_index_def bottom_center_index_def top_center_index_def)
  with g valid_3 show ?thesis by blast
qed


section \<open>Side-face normals (C6)\<close>





section \<open>Index references are in bounds (C7)\<close>

text \<open>
  C7. For every valid parameter set, every emitted face record is a face line with three
  vertex indices in \<open>[1, 2 sides + 2]\<close> and three normal indices in \<open>[1, 3 sides]\<close>, which
  are the lengths of the vertex list and of the normal list.
\<close>

theorem face_indices_in_bounds:
  assumes "valid_parameters sides h r1 r2"
  shows "\<exists>s. generate sides h r1 r2 = Some s
      \<and> length (vReorganized s) = 2 * sides + 2
      \<and> length (vn_arr s) = 3 * sides
      \<and> (\<forall>l \<in> set (f_arr s).
            is_face_line l
          \<and> length (vertex_indices l) = 3
          \<and> length (normal_indices l) = 3
          \<and> (\<forall>a \<in> set (vertex_indices l). 1 \<le> a \<and> a \<le> 2 * sides + 2)
          \<and> (\<forall>n \<in> set (normal_indices l). 1 \<le> n \<and> n \<le> 3 * sides))"
proof -
  from assms have pos: "0 < sides" by (simp add: valid_parameters_def)
  from generate_fields [of sides h r1 r2] obtain s where g: "generate sides h r1 r2 = Some s"
    and vn: "vn_arr s = map (\<lambda>k. normal_line (side_normal sides h r1 r2 k)) [0..<sides]
                      @ replicate sides roof_normal @ replicate sides floor_normal"
    and f: "f_arr s = concat (map (side_faces sides) [0..<sides])
                     @ map (\<lambda>k. roof_face sides k (sides + k + 1)) [0..<sides]
                     @ map (\<lambda>k. floor_face sides k (2 * sides + k + 1)) [0..<sides]"
    and v: "vReorganized s = map (\<lambda>k. vertex_line (ring_bottom sides r1 k)) [0..<sides]
                            @ map (\<lambda>k. vertex_line (ring_top sides h r2 k)) [0..<sides]
                            @ [VLine (Num 0) (Num 0) (Num 0), VLine (Num 0) h (Num 0)]"
    by blast
  have 1: "length (vReorganized s) = 2 * sides + 2" by (simp add: v)
  have 2: "length (vn_arr s) = 3 * sides" by (simp add: vn)
  have m: "Suc i mod sides \<le> Suc (2 * sides)" "Suc i mod sides \<le> Suc sides" for i
  proof -
    from pos have "Suc i mod sides < sides" by simp
    then show "Suc i mod sides \<le> Suc (2 * sides)" "Suc i mod sides \<le> Suc sides"
      by linarith+
  qed
  have 3: "\<forall>l \<in> set (f_arr s).
            is_face_line l
          \<and> length (vertex_indices l) = 3
          \<and> length (normal_indices l) = 3
          \<and> (\<forall>a \<in> set (vertex_indices l). 1 \<le> a \<and> a \<le> 2 * sides + 2)
          \<and> (\<forall>n \<in> set (normal_indices l). 1 \<le> n \<and> n \<le> 3 * sides)"
  proof
    fix l
    assume "l \<in> set (f_arr s)"
    then consider (side) i where "i < sides" "l \<in> set (side_faces sides i)"
      | (roof) i where "i < sides" "l = roof_face sides i (sides + i + 1)"
      | (floor) i where "i < sides" "l = floor_face sides i (2 * sides + i + 1)"
      by (auto simp: f)
    then show "is_face_line l
          \<and> length (vertex_indices l) = 3
          \<and> length (normal_indices l) = 3
          \<and> (\<forall>a \<in> set (vertex_indices l). 1 \<le> a \<and> a \<le> 2 * sides + 2)
          \<and> (\<forall>n \<in> set (normal_indices l). 1 \<le> n \<and> n \<le> 3 * sides)"
    proof cases
      case side
      then show ?thesis
        by (auto simp: side_faces_def Let_def triangle_def bottom_index_def top_index_def m)
    next
      case roof
      then show ?thesis
        by (auto simp: roof_face_def triangle_def top_index_def top_center_index_def m)
    next
      case floor
      then show ?thesis
        by (auto simp: floor_face_def triangle_def bottom_index_def bottom_center_index_def m)
    qed
  qed
  from g 1 2 3 show ?thesis by blast
qed

theorem face_indices_in_bounds_witness:
  "valid_parameters 3 (Num 1) (Num 1) (Num 1)
   \<and> (\<exists>s. generate 3 (Num 1) (Num 1) (Num 1) = Some s
        \<and> length (vReorganized s) = 8 \<and> length (vn_arr s) = 9
        \<and> list_all (\<lambda>l. list_all (\<lambda>a. 1 \<le> a \<and> a \<le> 8) (vertex_indices l)
                      \<and> list_all (\<lambda>n. 1 \<le> n \<and> n \<le> 9) (normal_indices l)) (f_arr s))"
  using face_indices_in_bounds [OF valid_3] valid_3
  by (auto simp: list_all_iff)


section \<open>The ring vertices (C8)\<close>

text \<open>
  C8. For every valid parameter set and every \<open>i < sides\<close>, with
  \<open>angle = (i / sides) 2 pi\<close>, bottom ring vertex \<open>i\<close> is
  \<open>(baseRadius cos(angle), 0, baseRadius sin(angle))\<close> and top ring vertex \<open>i\<close> is
  \<open>(topRadius cos(angle), height, topRadius sin(angle))\<close>, in the arrays of vectors and, as
  lines, at places \<open>i\<close> and \<open>sides + i\<close> of the vertex list. Each product is the one of the
  program: \<open>fl\<close> leaves it exact, except that a product of magnitude at most \<open>2^-1075\<close> is
  zero (no product overflows, a cosine or sine being at most 1 in magnitude). For \<open>sides = 8\<close>,
  \<open>height = 6.0\<close>, \<open>baseRadius = 1.0\<close>, \<open>topRadius = 0.8\<close> the first bottom vertex is
  written \<open>1.0000 0.0000 0.0000\<close> and the first top vertex \<open>0.8000 6.0000 0.0000\<close>.
\<close>

theorem ring_vertices:
  "(valid_parameters sides h r1 r2 \<longrightarrow>
      (\<exists>s height baseRadius topRadius.
          h = Num height \<and> r1 = Num baseRadius \<and> r2 = Num topRadius
        \<and> generate sides h r1 r2 = Some s
        \<and> (\<forall>i<sides.
              bottomVertices s ! i =
                Vector3 (fl (baseRadius * cos (real i / real sides * 2 * pi))) (Num 0)
                        (fl (baseRadius * sin (real i / real sides * 2 * pi)))
            \<and> topVertices s ! i =
                Vector3 (fl (topRadius * cos (real i / real sides * 2 * pi))) (Num height)
                        (fl (topRadius * sin (real i / real sides * 2 * pi)))
            \<and> vReorganized s ! i = vertex_line (bottomVertices s ! i)
            \<and> vReorganized s ! (sides + i) = vertex_line (topVertices s ! i))))
   \<and> (\<exists>s. generate 8 (Num 6) (Num 1) (Num (8 / 10)) = Some s
        \<and> render ns (vReorganized s ! 0) = ''v 1.0000 0.0000 0.0000''
        \<and> render ns (vReorganized s ! 8) = ''v 0.8000 6.0000 0.0000'')"
proof (intro conjI impI)
  assume "valid_parameters sides h r1 r2"
  then obtain height baseRadius topRadius
    where p: "h = Num height" "r1 = Num baseRadius" "r2 = Num topRadius"
    by (auto simp: valid_parameters_reals)
  from generate_fields [of sides h r1 r2] obtain s where g: "generate sides h r1 r2 = Some s"
    and b: "bottomVertices s = map (ring_bottom sides r1) [0..<sides]"
    and t: "topVertices s = map (ring_top sides h r2) [0..<sides]"
    and v: "vReorganized s = map (\<lambda>k. vertex_line (ring_bottom sides r1 k)) [0..<sides]
                            @ map (\<lambda>k. vertex_line (ring_top sides h r2 k)) [0..<sides]
                            @ [VLine (Num 0) (Num 0) (Num 0), VLine (Num 0) h (Num 0)]"
    by blast
  have "\<forall>i<sides.
              bottomVertices s ! i =
                Vector3 (fl (baseRadius * cos (real i / real sides * 2 * pi))) (Num 0)
                        (fl (baseRadius * sin (real i / real sides * 2 * pi)))
            \<and> topVertices s ! i =
                Vector3 (fl (topRadius * cos (real i / real sides * 2 * pi))) (Num height)
                        (fl (topRadius * sin (real i / real sides * 2 * pi)))
            \<and> vReorganized s ! i = vertex_line (bottomVertices s ! i)
            \<and> vReorganized s ! (sides + i) = vertex_line (topVertices s ! i)"
    by (simp add: b t v p ring_bottom_def ring_top_def angle_def nth_append)
  with g p show "\<exists>s height baseRadius topRadius.
          h = Num height \<and> r1 = Num baseRadius \<and> r2 = Num topRadius
        \<and> generate sides h r1 r2 = Some s
        \<and> (\<forall>i<sides.
              bottomVertices s ! i =
                Vector3 (fl (baseRadius * cos (real i / real sides * 2 * pi))) (Num 0)
                        (fl (baseRadius * sin (real i / real sides * 2 * pi)))
            \<and> topVertices s ! i =
                Vector3 (fl (topRadius * cos (real i / real sides * 2 * pi))) (Num height)
                        (fl (topRadius * sin (real i / real sides * 2 * pi)))
            \<and> vReorganized s ! i = vertex_line (bottomVertices s ! i)
            \<and> vReorganized s ! (sides + i) = vertex_line (topVertices s ! i))"
    by blast
next
  from generate_fields [of 8 "Num 6" "Num 1" "Num (8 / 10)"] obtain s
    where g: "generate 8 (Num 6) (Num 1) (Num (8 / 10)) = Some s"
    and v: "vReorganized s = map (\<lambda>k. vertex_line (ring_bottom 8 (Num 1) k)) [0..<8]
                            @ map (\<lambda>k. vertex_line (ring_top 8 (Num 6) (Num (8 / 10)) k)) [0..<8]
                            @ [VLine (Num 0) (Num 0) (Num 0), VLine (Num 0) (Num 6) (Num 0)]"
    by blast
  have "vReorganized s ! 0 = VLine (Num 1) (Num 0) (Num 0)"
    by (simp add: v nth_append vertex_line_def ring_bottom_def angle_def fl_0 fl_range)
  then have 0: "render ns (vReorganized s ! 0) = ''v 1.0000 0.0000 0.0000''"
    by (simp add: render_def fmt_0 fmt_1)
  have "vReorganized s ! 8 = VLine (Num (4 / 5)) (Num 6) (Num 0)"
    by (simp add: v nth_append vertex_line_def ring_top_def angle_def fl_0 fl_range)
  then have 8: "render ns (vReorganized s ! 8) = ''v 0.8000 6.0000 0.0000''"
    by (simp add: render_def fmt_0 fmt_6 fmt_08)
  from g 0 8 show "\<exists>s. generate 8 (Num 6) (Num 1) (Num (8 / 10)) = Some s
        \<and> render ns (vReorganized s ! 0) = ''v 1.0000 0.0000 0.0000''
        \<and> render ns (vReorganized s ! 8) = ''v 0.8000 6.0000 0.0000''"
    by blast
qed

theorem ring_vertices_witness:
  "valid_parameters 4 (Num 2) (Num 3) (Num 1)
   \<and> (\<exists>s. generate 4 (Num 2) (Num 3) (Num 1) = Some s
        \<and> bottomVertices s ! 1 = Vector3 (Num 0) (Num 0) (Num 3)
        \<and> topVertices s ! 1 = Vector3 (Num 0) (Num 2) (Num 1))"
proof -
  have valid: "valid_parameters 4 (Num 2) (Num 3) (Num 1)"
    by (simp add: valid_parameters_def positive_def)
  from ring_vertices [of 4 "Num 2" "Num 3" "Num 1" no_digits] valid
  obtain s height baseRadius topRadius
    where p: "Num 2 = Num height" "Num 3 = Num baseRadius" "Num 1 = Num topRadius"
      and g: "generate 4 (Num 2) (Num 3) (Num 1) = Some s"
      and a: "\<forall>i<4.
              bottomVertices s ! i =
                Vector3 (fl (baseRadius * cos (real i / real 4 * 2 * pi))) (Num 0)
                        (fl (baseRadius * sin (real i / real 4 * 2 * pi)))
            \<and> topVertices s ! i =
                Vector3 (fl (topRadius * cos (real i / real 4 * 2 * pi))) (Num height)
                        (fl (topRadius * sin (real i / real 4 * 2 * pi)))
            \<and> vReorganized s ! i = vertex_line (bottomVertices s ! i)
            \<and> vReorganized s ! (4 + i) = vertex_line (topVertices s ! i)"
    by blast
  from p have q: "height = 2" "baseRadius = 3" "topRadius = 1" by simp_all
  from a [rule_format, of 1]
  have "bottomVertices s ! 1 = Vector3 (Num 0) (Num 0) (Num 3)"
    "topVertices s ! 1 = Vector3 (Num 0) (Num 2) (Num 1)"
    by (simp_all add: q fl_0 fl_range)
  with valid g show ?thesis by blast
qed


section \<open>The counts of the header (C10)\<close>

text \<open>
  C10. Whenever the program writes the file, and so for every valid parameter set, the
  content is the two heading lines, then the lines \<open># Vertices totales:\<close>,
  \<open># Normales totales:\<close> and \<open># Caras totales:\<close>, each with a number in decimal, then an
  empty line, then the lines of the body; and the three numbers are the numbers of body
  lines whose text starts with \<open>v\<close>, \<open>vn\<close> and \<open>f\<close> followed by a space. No line of the
  body holds a line feed, unless the text of a number does.
\<close>

theorem header_counts_match_body:
  assumes "sides = arg_or args 0 parseInt (Some 8)"
    and "h = arg_or args 1 parseFloat (Num 6)"
    and "r1 = arg_or args 2 parseFloat (Num 1)"
    and "r2 = arg_or args 3 parseFloat (Num (8 / 10))"
    and "\<not> invalid sides h r1 r2"
  shows "\<exists>s nv nn nf.
        generate (rounds sides) h r1 r2 = Some s
      \<and> main ns args =
          WriteFile (nombre ns (num_of sides) h r1 r2)
            (''# OBJ file '' @ nombre ns (num_of sides) h r1 r2 @ [CHR 0x0A]
             @ ''# sides: '' @ toString ns (num_of sides) @ '', h: '' @ toString ns h
             @ '', R_Base: '' @ toString ns r1 @ '', R_Cima: '' @ toString ns r2 @ [CHR 0x0A]
             @ ''# Vertices totales: '' @ nat_str nv @ [CHR 0x0A]
             @ ''# Normales totales: '' @ nat_str nn @ [CHR 0x0A]
             @ ''# Caras totales: '' @ nat_str nf @ [CHR 0x0A]
             @ concat (map (\<lambda>l. CHR 0x0A # render ns l) (vReorganized s @ vn_arr s @ f_arr s)))
      \<and> nv = length (filter (\<lambda>l. take 2 (render ns l) = ''v '')
                       (vReorganized s @ vn_arr s @ f_arr s))
      \<and> nn = length (filter (\<lambda>l. take 3 (render ns l) = ''vn '')
                       (vReorganized s @ vn_arr s @ f_arr s))
      \<and> nf = length (filter (\<lambda>l. take 2 (render ns l) = ''f '')
                       (vReorganized s @ vn_arr s @ f_arr s))
      \<and> foldl (\<lambda>a c. 10 * a + (of_char c - 48)) 0 (nat_str nv) = nv
      \<and> foldl (\<lambda>a c. 10 * a + (of_char c - 48)) 0 (nat_str nn) = nn
      \<and> foldl (\<lambda>a c. 10 * a + (of_char c - 48)) 0 (nat_str nf) = nf
      \<and> set (nat_str nv) \<union> set (nat_str nn) \<union> set (nat_str nf) \<subseteq> set ''0123456789''
      \<and> ((\<forall>a. CHR 0x0A \<notin> set (ns a)) \<longrightarrow>
           (\<forall>l \<in> set (vReorganized s @ vn_arr s @ f_arr s). CHR 0x0A \<notin> set (render ns l)))"
proof -
  define n where "n = rounds sides"
  from generate_fields [of n h r1 r2] obtain s where g: "generate n h r1 r2 = Some s"
    by blast
  note k = generated_kinds [OF g]
  define body where "body = vReorganized s @ vn_arr s @ f_arr s"
  have m: "main ns args = write_obj ns (num_of sides) h r1 r2 s"
    using assms(5) g unfolding assms(1-4) n_def by (simp add: main_def Let_def)
  have w: "write_obj ns (num_of sides) h r1 r2 s =
      WriteFile (nombre ns (num_of sides) h r1 r2)
        (header ns (num_of sides) h r1 r2 (length (vReorganized s)) (length (vn_arr s))
           (length (f_arr s))
         @ concat (map (\<lambda>l. CHR 0x0A # render ns l) body))"
    by (simp add: write_obj_def Let_def join_lines newline_def body_def comp_def
        del: append_assoc)
  have c: "length (filter (\<lambda>l. take 2 (render ns l) = ''v '') body) = length (vReorganized s)"
    "length (filter (\<lambda>l. take 3 (render ns l) = ''vn '') body) = length (vn_arr s)"
    "length (filter (\<lambda>l. take 2 (render ns l) = ''f '') body) = length (f_arr s)"
    unfolding body_def render_kind [symmetric] by (simp_all only: k)
  have nl: "(\<forall>a. CHR 0x0A \<notin> set (ns a)) \<longrightarrow> (\<forall>l \<in> set body. CHR 0x0A \<notin> set (render ns l))"
    by (simp add: render_no_newline)
  have d: "set (nat_str (length (vReorganized s))) \<union> set (nat_str (length (vn_arr s)))
      \<union> set (nat_str (length (f_arr s))) \<subseteq> set ''0123456789''"
    by (intro Un_least nat_str_digits)
  show ?thesis
    apply (rule exI [of _ s])
    apply (rule exI [of _ "length (vReorganized s)"])
    apply (rule exI [of _ "length (vn_arr s)"])
    apply (rule exI [of _ "length (f_arr s)"])
    using g nl d
    apply (simp only: m w c [unfolded body_def] nat_str_decimal n_def [symmetric] body_def
        header_def newline_def append_assoc)
    done
qed

theorem header_counts_match_body_witness:
  "\<exists>s. generate 8 (Num 6) (Num 1) (Num 1) = Some s
      \<and> main no_digits [ascii ''8'', ascii ''6'', ascii ''1.0'', ascii ''1.0''] =
          WriteFile ''building_8_6_1_1.obj''
            (''# OBJ file building_8_6_1_1.obj'' @ [CHR 0x0A]
             @ ''# sides: 8, h: 6, R_Base: 1, R_Cima: 1'' @ [CHR 0x0A]
             @ ''# Vertices totales: 18'' @ [CHR 0x0A]
             @ ''# Normales totales: 24'' @ [CHR 0x0A]
             @ ''# Caras totales: 32'' @ [CHR 0x0A]
             @ concat (map (\<lambda>l. CHR 0x0A # render no_digits l)
                 (vReorganized s @ vn_arr s @ f_arr s)))
      \<and> length (filter (\<lambda>l. take 2 (render no_digits l) = ''v '')
            (vReorganized s @ vn_arr s @ f_arr s)) = 18
      \<and> length (filter (\<lambda>l. take 3 (render no_digits l) = ''vn '')
            (vReorganized s @ vn_arr s @ f_arr s)) = 24
      \<and> length (filter (\<lambda>l. take 2 (render no_digits l) = ''f '')
            (vReorganized s @ vn_arr s @ f_arr s)) = 32
      \<and> CHR 0x0A \<notin> set (render no_digits (hd (vReorganized s)))"
proof -
  let ?args = "[ascii ''8'', ascii ''6'', ascii ''1.0'', ascii ''1.0'']"
  have a: "Some 8 = arg_or ?args 0 parseInt (Some 8)"
    "Num 6 = arg_or ?args 1 parseFloat (Num 6)"
    "Num 1 = arg_or ?args 2 parseFloat (Num 1)"
    "Num 1 = arg_or ?args 3 parseFloat (Num (8 / 10))"
    by (simp_all add: arg_or_def ascii_nonempty parseInt_examples parseFloat_examples)
  have v: "\<not> invalid (Some 8) (Num 6) (Num 1) (Num 1)"
    by (simp add: invalid_iff)
  have r: "rounds (Some 8) = 8" "num_of (Some 8) = Num 8"
    by (simp_all add: rounds_def num_of_def fl_range)
  have t: "toString no_digits (Num 8) = ''8''" "toString no_digits (Num 6) = ''6''"
    "toString no_digits (Num 1) = ''1''"
    by (simp_all add: toString_def int_str_def nat_str.simps digit_char_def)
  have n: "nombre no_digits (Num 8) (Num 6) (Num 1) (Num 1) = ''building_8_6_1_1.obj''"
    by (simp add: nombre_def t)
  have d: "nat_str 18 = ''18''" "nat_str 24 = ''24''" "nat_str 32 = ''32''"
    by (simp_all add: nat_str.simps digit_char_def)
  have q: "\<forall>a. CHR 0x0A \<notin> set (no_digits a)"
    by (simp add: no_digits_def)
  from header_counts_match_body [OF a v, of no_digits, unfolded r n t]
  obtain s nv nn nf where g: "generate 8 (Num 6) (Num 1) (Num 1) = Some s"
    and m: "main no_digits ?args =
          WriteFile ''building_8_6_1_1.obj''
            (''# OBJ file '' @ ''building_8_6_1_1.obj'' @ [CHR 0x0A]
             @ ''# sides: '' @ ''8'' @ '', h: '' @ ''6''
             @ '', R_Base: '' @ ''1'' @ '', R_Cima: '' @ ''1'' @ [CHR 0x0A]
             @ ''# Vertices totales: '' @ nat_str nv @ [CHR 0x0A]
             @ ''# Normales totales: '' @ nat_str nn @ [CHR 0x0A]
             @ ''# Caras totales: '' @ nat_str nf @ [CHR 0x0A]
             @ concat (map (\<lambda>l. CHR 0x0A # render no_digits l)
                 (vReorganized s @ vn_arr s @ f_arr s)))"
    and c: "nv = length (filter (\<lambda>l. take 2 (render no_digits l) = ''v '')
                       (vReorganized s @ vn_arr s @ f_arr s))"
      "nn = length (filter (\<lambda>l. take 3 (render no_digits l) = ''vn '')
                       (vReorganized s @ vn_arr s @ f_arr s))"
      "nf = length (filter (\<lambda>l. take 2 (render no_digits l) = ''f '')
                       (vReorganized s @ vn_arr s @ f_arr s))"
    and l: "(\<forall>a. CHR 0x0A \<notin> set (no_digits a)) \<longrightarrow>
           (\<forall>l \<in> set (vReorganized s @ vn_arr s @ f_arr s).
              CHR 0x0A \<notin> set (render no_digits l))"
    by blast
  note k = generated_kinds [OF g]
  have e: "nv = 18" "nn = 24" "nf = 32"
    unfolding c render_kind [symmetric] by (simp_all only: k)
  have "vReorganized s \<noteq> []"
    using k(4) by auto
  then have "hd (vReorganized s) \<in> set (vReorganized s @ vn_arr s @ f_arr s)"
    by simp
  with l q have h: "CHR 0x0A \<notin> set (render no_digits (hd (vReorganized s)))"
    by blast
  show ?thesis
    apply (rule exI [of _ s])
    using g m h c [unfolded e, symmetric]
    apply (simp only: e d)
    apply simp
    done
qed

end
